theory Spec2Isabelle
  imports Complex_Main "HOL-Library.AList"
begin

section \<open>Data model\<close>

text \<open>
  Python floats are modelled as \<open>real\<close> and Python/NumPy complex numbers as
  \<open>complex\<close>: arithmetic is exact, rounding is not part of the model.
  Objects that the program shares by reference (buses, lines, faults) live in
  explicit stores indexed by a reference; a dictionary is an association list
  in insertion order (\<open>AList.update\<close> overwrites in place and appends a new
  key, as a Python \<open>dict\<close> does).
\<close>

type_synonym ref = nat

datatype error = KeyError | LinAlgError | ValueError | ZeroDivisionError | OverflowError

text \<open>\<open>faults/types.py\<close>: the enumeration \<open>FaultType\<close> and its \<open>value\<close> strings.\<close>

datatype FaultType = SLG | LL | DLG | LLL | OPEN

fun FaultType_value :: "FaultType \<Rightarrow> string" where
  "FaultType_value SLG = ''slg''"
| "FaultType_value LL = ''ll''"
| "FaultType_value DLG = ''dlg''"
| "FaultType_value LLL = ''lll''"
| "FaultType_value OPEN = ''open''"

text \<open>\<open>grid/bus.py\<close>: class \<open>Bus\<close>. The fields \<open>id\<close>, \<open>name\<close>, \<open>x\<close>, \<open>y\<close>,
  \<open>is_faulted\<close> and \<open>fault_type\<close> carry the prefix \<open>bus_\<close>.\<close>

record bus =
  bus_id :: int
  bus_name :: string
  bus_type :: string
  voltage_kv :: real
  voltage_pu :: real
  angle_deg :: real
  p_gen :: real
  q_gen :: real
  p_load :: real
  q_load :: real
  bus_x :: real
  bus_y :: real
  bus_is_faulted :: bool
  bus_fault_type :: "string option"

text \<open>\<open>grid/line.py\<close>: class \<open>TransmissionLine\<close>. \<open>from_bus\<close> and \<open>to_bus\<close> are
  references to \<open>Bus\<close> objects.\<close>

record line =
  line_id :: int
  from_bus :: ref
  to_bus :: ref
  length_km :: real
  r_ohm :: real
  x_ohm :: real
  b_siemens :: real
  r_pu :: real
  x_pu :: real
  b_pu :: real
  r0_pu :: real
  x0_pu :: real
  rating_mva :: real
  is_closed :: bool
  is_faulted :: bool
  fault_type :: "string option"
  fault_location :: real
  current_pu :: real
  power_flow_mw :: real
  loading_percent :: real

section \<open>Transmission line operations (\<open>grid/line.py\<close>)\<close>

definition z_pu :: "line \<Rightarrow> complex" where
  "z_pu l = Complex (r_pu l) (x_pu l)"

definition y_pu :: "line \<Rightarrow> complex" where
  "y_pu l = (if cmod (z_pu l) > 1 / 10 ^ 10 then 1 / z_pu l else Complex 0 0)"

definition z0_pu :: "line \<Rightarrow> complex" where
  "z0_pu l = Complex (r0_pu l) (x0_pu l)"

definition get_impedance_to_point :: "line \<Rightarrow> real \<Rightarrow> complex" where
  "get_impedance_to_point l distance_fraction =
     z_pu l * of_real (max 0 (min 1 distance_fraction))"

definition open_line :: "line \<Rightarrow> line" where
  "open_line l = l\<lparr>is_closed := False\<rparr>"

definition close_line :: "line \<Rightarrow> line" where
  "close_line l = l\<lparr>is_closed := True, is_faulted := False, fault_type := None\<rparr>"


definition clear_fault :: "line \<Rightarrow> line" where
  "clear_fault l = l\<lparr>is_faulted := False, fault_type := None\<rparr>"

definition update_loading :: "real \<Rightarrow> real \<Rightarrow> line \<Rightarrow> line" where
  "update_loading cur power_mw l =
     l\<lparr>current_pu := cur, power_flow_mw := power_mw,
       loading_percent :=
         (if rating_mva l > 0 then (\<bar>power_mw\<bar> / rating_mva l) * 100 else 0)\<rparr>"

section \<open>Fault models (\<open>faults/models.py\<close>)\<close>

text \<open>Each model guards its sequence-network denominator: the local \<open>z_total\<close>
  after the \<open>if abs(z_total) < 1e-10\<close> statement.\<close>

definition SLG_z_total :: "complex \<Rightarrow> complex \<Rightarrow> complex \<Rightarrow> real \<Rightarrow> complex" where
  "SLG_z_total z0 z1 z2 z_f =
     (let z_total = z0 + z1 + z2 + 3 * of_real z_f
      in if cmod z_total < 1 / 10 ^ 10 then of_real (1 / 10 ^ 10) else z_total)"

definition SLG_calculate_fault_current ::
    "complex \<Rightarrow> complex \<Rightarrow> complex \<Rightarrow> complex \<Rightarrow> real \<Rightarrow> complex \<times> complex \<times> complex" where
  "SLG_calculate_fault_current v_f z0 z1 z2 z_f =
     (let i_seq = v_f / SLG_z_total z0 z1 z2 z_f in (i_seq, i_seq, i_seq))"

definition LL_z_total :: "complex \<Rightarrow> complex \<Rightarrow> real \<Rightarrow> complex" where
  "LL_z_total z1 z2 z_f =
     (let z_total = z1 + z2 + of_real z_f
      in if cmod z_total < 1 / 10 ^ 10 then of_real (1 / 10 ^ 10) else z_total)"

definition LL_calculate_fault_current ::
    "complex \<Rightarrow> complex \<Rightarrow> complex \<Rightarrow> complex \<Rightarrow> real \<Rightarrow> complex \<times> complex \<times> complex" where
  "LL_calculate_fault_current v_f z0 z1 z2 z_f =
     (let i1 = v_f / LL_z_total z1 z2 z_f;
          i2 = - i1;
          i0 = Complex 0 0
      in (i0, i1, i2))"

definition DLG_z_parallel :: "complex \<Rightarrow> complex \<Rightarrow> real \<Rightarrow> complex" where
  "DLG_z_parallel z0 z2 z_f =
     (let z0_with_fault = z0 + 3 * of_real z_f
      in if cmod (z0_with_fault + z2) < 1 / 10 ^ 10 then 0
         else (z0_with_fault * z2) / (z0_with_fault + z2))"

definition DLG_z_total :: "complex \<Rightarrow> complex \<Rightarrow> complex \<Rightarrow> real \<Rightarrow> complex" where
  "DLG_z_total z0 z1 z2 z_f =
     (let z_total = z1 + DLG_z_parallel z0 z2 z_f
      in if cmod z_total < 1 / 10 ^ 10 then of_real (1 / 10 ^ 10) else z_total)"

definition DLG_calculate_fault_current ::
    "complex \<Rightarrow> complex \<Rightarrow> complex \<Rightarrow> complex \<Rightarrow> real \<Rightarrow> complex \<times> complex \<times> complex" where
  "DLG_calculate_fault_current v_f z0 z1 z2 z_f =
     (let z0_with_fault = z0 + 3 * of_real z_f;
          i1 = v_f / DLG_z_total z0 z1 z2 z_f
      in if cmod (z0_with_fault + z2) < 1 / 10 ^ 10 then (i1 / 2, i1, i1 / 2)
         else (- i1 * z2 / (z0_with_fault + z2), i1,
               - i1 * z0_with_fault / (z0_with_fault + z2)))"

definition LLL_z_total :: "complex \<Rightarrow> real \<Rightarrow> complex" where
  "LLL_z_total z1 z_f =
     (let z_total = z1 + of_real z_f
      in if cmod z_total < 1 / 10 ^ 10 then of_real (1 / 10 ^ 10) else z_total)"

definition ThreePhaseFault_calculate_fault_current ::
    "complex \<Rightarrow> complex \<Rightarrow> complex \<Rightarrow> complex \<Rightarrow> real \<Rightarrow> complex \<times> complex \<times> complex" where
  "ThreePhaseFault_calculate_fault_current v_f z0 z1 z2 z_f =
     (let i1 = v_f / LLL_z_total z1 z_f;
          i0 = Complex 0 0;
          i2 = Complex 0 0
      in (i0, i1, i2))"

definition OpenCircuitFault_calculate_fault_current ::
    "complex \<Rightarrow> complex \<Rightarrow> complex \<Rightarrow> complex \<Rightarrow> real \<Rightarrow> complex \<times> complex \<times> complex" where
  "OpenCircuitFault_calculate_fault_current v_f z0 z1 z2 z_f =
     (Complex 0 0, Complex 0 0, Complex 0 0)"

text \<open>\<open>get_fault_model(fault_type).calculate_fault_current\<close>: dispatch on the kind.\<close>

fun calculate_fault_current ::
    "FaultType \<Rightarrow> complex \<Rightarrow> complex \<Rightarrow> complex \<Rightarrow> complex \<Rightarrow> real
       \<Rightarrow> complex \<times> complex \<times> complex" where
  "calculate_fault_current SLG = SLG_calculate_fault_current"
| "calculate_fault_current LL = LL_calculate_fault_current"
| "calculate_fault_current DLG = DLG_calculate_fault_current"
| "calculate_fault_current LLL = ThreePhaseFault_calculate_fault_current"
| "calculate_fault_current OPEN = OpenCircuitFault_calculate_fault_current"

section \<open>Binary64 arithmetic\<close>

text \<open>A Python \<open>float\<close> is an IEEE 754 binary64 number: a finite value, an infinity
  or a NaN. The sign of a zero is not kept.\<close>

datatype double = Fin real | PInf | NInf | NaN

text \<open>Rounding to nearest, ties to even: \<open>ulp x\<close> is the spacing of the binary64
  numbers around \<open>x\<close> (53 significant bits, least exponent \<open>-1022\<close>), and \<open>rnd x\<close> is
  the binary64 result of an operation whose exact result is \<open>x\<close>; a result that
  rounds to magnitude \<open>2\<^sup>1\<^sup>0\<^sup>2\<^sup>4\<close> or more overflows to an infinity.\<close>

definition round_even :: "real \<Rightarrow> int" where
  "round_even x =
     (let n = \<lfloor>x\<rfloor>; d = x - of_int n
      in if d < 1 / 2 then n else if 1 / 2 < d then n + 1 else if even n then n else n + 1)"

definition ulp :: "real \<Rightarrow> real" where
  "ulp x = 2 powr (of_int (max \<lfloor>log 2 \<bar>x\<bar>\<rfloor> (- 1022)) - 52)"

definition rnd :: "real \<Rightarrow> double" where
  "rnd x =
     (if x = 0 then Fin 0
      else let y = of_int (round_even (x / ulp x)) * ulp x
           in if 2 ^ 1024 \<le> \<bar>y\<bar> then (if 0 < x then PInf else NInf) else Fin y)"

text \<open>The arithmetic of the C \<open>double\<close> that Python's \<open>float\<close> and \<open>complex\<close>
  are built on: \<open>+\<close>, \<open>-\<close>, \<open>*\<close>, \<open>/\<close>, \<open>fabs\<close>, \<open><\<close>, \<open>>=\<close> and \<open>hypot\<close> (taken as correctly
  rounded). An infinity or a NaN raises nothing at this level.\<close>

definition inf_of :: "real \<Rightarrow> double" where
  "inf_of s = (if 0 < s then PInf else NInf)"

fun dsign :: "double \<Rightarrow> real" where
  "dsign (Fin x) = sgn x"
| "dsign PInf = 1"
| "dsign NInf = - 1"
| "dsign NaN = 0"

fun fneg :: "double \<Rightarrow> double" where
  "fneg (Fin x) = Fin (- x)"
| "fneg PInf = NInf"
| "fneg NInf = PInf"
| "fneg NaN = NaN"

fun fabs :: "double \<Rightarrow> double" where
  "fabs (Fin x) = Fin \<bar>x\<bar>"
| "fabs PInf = PInf"
| "fabs NInf = PInf"
| "fabs NaN = NaN"

definition fadd :: "double \<Rightarrow> double \<Rightarrow> double" where
  "fadd a b =
     (case (a, b) of
        (Fin x, Fin y) \<Rightarrow> rnd (x + y)
      | (Fin x, _) \<Rightarrow> b
      | (_, Fin y) \<Rightarrow> a
      | _ \<Rightarrow> if a = b then a else NaN)"

definition fsub :: "double \<Rightarrow> double \<Rightarrow> double" where
  "fsub a b = fadd a (fneg b)"

definition fmul :: "double \<Rightarrow> double \<Rightarrow> double" where
  "fmul a b =
     (case (a, b) of
        (Fin x, Fin y) \<Rightarrow> rnd (x * y)
      | _ \<Rightarrow> if a = NaN \<or> b = NaN \<or> dsign a * dsign b = 0 then NaN
             else inf_of (dsign a * dsign b))"

definition fdiv :: "double \<Rightarrow> double \<Rightarrow> double" where
  "fdiv a b =
     (case (a, b) of
        (Fin x, Fin y) \<Rightarrow>
          if y = 0 then (if x = 0 then NaN else inf_of x) else rnd (x / y)
      | (Fin x, PInf) \<Rightarrow> Fin 0
      | (Fin x, NInf) \<Rightarrow> Fin 0
      | (_, Fin y) \<Rightarrow> if a = NaN then NaN else inf_of (dsign a * (if y < 0 then - 1 else 1))
      | _ \<Rightarrow> NaN)"

fun flt :: "double \<Rightarrow> double \<Rightarrow> bool" where
  "flt (Fin x) (Fin y) = (x < y)"
| "flt NaN _ = False"
| "flt _ NaN = False"
| "flt PInf _ = False"
| "flt _ NInf = False"
| "flt _ _ = True"

definition fge :: "double \<Rightarrow> double \<Rightarrow> bool" where
  "fge a b = (a \<noteq> NaN \<and> b \<noteq> NaN \<and> \<not> flt a b)"

fun isfinite :: "double \<Rightarrow> bool" where
  "isfinite (Fin x) = True"
| "isfinite _ = False"

definition hypot :: "double \<Rightarrow> double \<Rightarrow> double" where
  "hypot a b =
     (case (a, b) of
        (Fin x, Fin y) \<Rightarrow> rnd (sqrt (x * x + y * y))
      | _ \<Rightarrow> if a = PInf \<or> a = NInf \<or> b = PInf \<or> b = NInf then PInf else NaN)"

text \<open>A Python \<open>complex\<close> is a pair of floats. Its operators, as CPython defines
  them: the sum and the product componentwise by the textbook formulas, the
  quotient by Smith's method (\<open>ZeroDivisionError\<close> for a zero divisor), and \<open>abs\<close> by
  \<open>hypot\<close> (\<open>OverflowError\<close> when finite parts give an infinite result). NumPy's
  \<open>complex128\<close> adds and multiplies by the same formulas.\<close>

type_synonym cdouble = "double \<times> double"

definition c_sum :: "cdouble \<Rightarrow> cdouble \<Rightarrow> cdouble" where
  "c_sum a b = (fadd (fst a) (fst b), fadd (snd a) (snd b))"


definition c_prod :: "cdouble \<Rightarrow> cdouble \<Rightarrow> cdouble" where
  "c_prod a b =
     (fsub (fmul (fst a) (fst b)) (fmul (snd a) (snd b)),
      fadd (fmul (fst a) (snd b)) (fmul (snd a) (fst b)))"

definition c_quot :: "cdouble \<Rightarrow> cdouble \<Rightarrow> error + cdouble" where
  "c_quot a b =
     (let abs_breal = fabs (fst b); abs_bimag = fabs (snd b)
      in if fge abs_breal abs_bimag then
           if abs_breal = Fin 0 then Inl ZeroDivisionError
           else
             let ratio = fdiv (snd b) (fst b);
                 denom = fadd (fst b) (fmul (snd b) ratio)
             in Inr (fdiv (fadd (fst a) (fmul (snd a) ratio)) denom,
                     fdiv (fsub (snd a) (fmul (fst a) ratio)) denom)
         else if fge abs_bimag abs_breal then
           let ratio = fdiv (fst b) (snd b);
               denom = fadd (fmul (fst b) ratio) (snd b)
           in Inr (fdiv (fadd (fmul (fst a) ratio) (snd a)) denom,
                   fdiv (fsub (fmul (snd a) ratio) (fst a)) denom)
         else Inr (NaN, NaN))"

definition c_abs :: "cdouble \<Rightarrow> error + double" where
  "c_abs z =
     (let r = hypot (fst z) (snd z)
      in if isfinite (fst z) \<and> isfinite (snd z) \<and> \<not> isfinite r then Inl OverflowError
         else Inr r)"

text \<open>The literal \<open>1e-10\<close>, and a float operand of a complex operator, which is
  converted to a complex with imaginary part \<open>0.0\<close>.\<close>

definition eps_b64 :: double where
  "eps_b64 = rnd (1 / 10 ^ 10)"

definition of_float :: "double \<Rightarrow> cdouble" where
  "of_float x = (x, Fin 0)"

section \<open>The fault models in binary64\<close>



definition ThreePhaseFault_b64 ::
    "cdouble \<Rightarrow> cdouble \<Rightarrow> cdouble \<Rightarrow> cdouble \<Rightarrow> double
       \<Rightarrow> error + cdouble \<times> cdouble \<times> cdouble" where
  "ThreePhaseFault_b64 v_f z0 z1 z2 z_f =
     (let z_total = c_sum z1 (of_float z_f)
      in case c_abs z_total of
           Inl e \<Rightarrow> Inl e
         | Inr m \<Rightarrow>
             (case c_quot v_f (if flt m eps_b64 then of_float eps_b64 else z_total) of
                Inl e \<Rightarrow> Inl e
              | Inr i1 \<Rightarrow> Inr ((Fin 0, Fin 0), i1, (Fin 0, Fin 0))))"

text \<open>\<open>sequence_to_phase\<close>. The constant \<open>a = np.exp(1j * 2 * np.pi / 3)\<close> is the
  \<open>complex128\<close> value \<open>-0.4999999999999998 + 0.8660254037844387 j\<close>, that is
  \<open>- (2\<^sup>5\<^sup>1 - 1) / 2\<^sup>5\<^sup>2 + (7800463371553963 / 2\<^sup>5\<^sup>3) j\<close>.\<close>

definition a_b64 :: cdouble where
  "a_b64 = (Fin (- (2251799813685247 / 2 ^ 52)), Fin (7800463371553963 / 2 ^ 53))"

definition sequence_to_phase ::
    "cdouble \<Rightarrow> cdouble \<Rightarrow> cdouble \<Rightarrow> cdouble \<times> cdouble \<times> cdouble" where
  "sequence_to_phase i0 i1 i2 =
     (let a = a_b64;
          a2 = c_prod a a;
          ia = c_sum (c_sum i0 i1) i2;
          ib = c_sum (c_sum i0 (c_prod a2 i1)) (c_prod a i2);
          ic = c_sum (c_sum i0 (c_prod a i1)) (c_prod a2 i2)
      in (ia, ib, ic))"

text \<open>The magnitude, as a real number, of a complex number with finite parts.\<close>

fun c_mod :: "cdouble \<Rightarrow> real" where
  "c_mod (Fin x, Fin y) = sqrt (x * x + y * y)"
| "c_mod _ = 0"

text \<open>Constants of the rounding analysis: the unit roundoff \<open>2\<^sup>-\<^sup>5\<^sup>3\<close>, half the
  least positive binary64 number, and a magnitude below which nothing overflows.\<close>

definition u53 :: real where "u53 = 1 / 2 ^ 53"

definition tiny :: real where "tiny = 1 / 2 ^ 1075"

definition big :: real where "big = 2 ^ 1010"

section \<open>The network (\<open>grid/network.py\<close>)\<close>

text \<open>\<open>config.py\<close>: \<open>IMPEDANCE_BASE = VOLTAGE_BASE ** 2 / POWER_BASE\<close> and \<open>POWER_BASE\<close>.\<close>

definition IMPEDANCE_BASE :: real where
  "IMPEDANCE_BASE = 220 ^ 2 / 100"

definition POWER_BASE :: real where
  "POWER_BASE = 100"

text \<open>The constructors \<open>Bus.__init__\<close> and \<open>TransmissionLine.__init__\<close>, with the
  zero-sequence ratios \<open>ZERO_SEQ_RESISTANCE_RATIO = ZERO_SEQ_REACTANCE_RATIO = 3.0\<close>.\<close>

definition Bus :: "int \<Rightarrow> string \<Rightarrow> string \<Rightarrow> real \<Rightarrow> real \<Rightarrow> real \<Rightarrow> bus" where
  "Bus i nm ty kv px py =
     \<lparr>bus_id = i, bus_name = nm, bus_type = ty, voltage_kv = kv,
      voltage_pu = 1, angle_deg = 0, p_gen = 0, q_gen = 0, p_load = 0, q_load = 0,
      bus_x = px, bus_y = py, bus_is_faulted = False, bus_fault_type = None\<rparr>"

definition TransmissionLine ::
    "int \<Rightarrow> ref \<Rightarrow> ref \<Rightarrow> real \<Rightarrow> real \<Rightarrow> real \<Rightarrow> real \<Rightarrow> real \<Rightarrow> line" where
  "TransmissionLine i fb tb len r_per_km x_per_km b_per_km rating =
     \<lparr>line_id = i, from_bus = fb, to_bus = tb, length_km = len,
      r_ohm = r_per_km * len, x_ohm = x_per_km * len, b_siemens = b_per_km * len,
      r_pu = r_per_km * len / IMPEDANCE_BASE, x_pu = x_per_km * len / IMPEDANCE_BASE,
      b_pu = b_per_km * len * IMPEDANCE_BASE,
      r0_pu = r_per_km * len / IMPEDANCE_BASE * 3, x0_pu = x_per_km * len / IMPEDANCE_BASE * 3,
      rating_mva = rating, is_closed = True, is_faulted = False, fault_type = None,
      fault_location = 1 / 2, current_pu = 0, power_flow_mw = 0, loading_percent = 0\<rparr>"

text \<open>Class \<open>Grid\<close>. The dictionaries \<open>buses\<close> and \<open>lines\<close> hold references to the
  bus and line objects; \<open>y_bus\<close> and \<open>y_bus_valid\<close> are the cache \<open>_y_bus\<close> and its
  flag \<open>_y_bus_valid\<close>. A matrix is a list of rows.\<close>

record grid =
  grid_name :: string
  buses :: "(int \<times> ref) list"
  lines :: "(int \<times> ref) list"
  adjacency :: "(int \<times> int list) list"
  y_bus :: "complex list list option"
  y_bus_valid :: bool
  bus_id_to_idx :: "(int \<times> nat) list"
  idx_to_bus_id :: "(nat \<times> int) list"

definition Grid :: "string \<Rightarrow> grid" where
  "Grid nm = \<lparr>grid_name = nm, buses = [], lines = [], adjacency = [],
              y_bus = None, y_bus_valid = False, bus_id_to_idx = [], idx_to_bus_id = []\<rparr>"

text \<open>\<open>faults/types.py\<close>: the dataclass \<open>Fault\<close>; its field \<open>fault_type\<close> is
  \<open>f_fault_type\<close> here.\<close>

record fault =
  f_fault_type :: FaultType
  location_type :: string
  element_id :: int
  position :: real
  resistance :: real
  is_active :: bool
  detected :: bool
  detected_location :: "real option"



text \<open>The program state: the stores of bus, line and fault objects, the next
  unused fault reference (a new \<open>Fault\<close> object gets it; it is the object's
  \<open>id\<close>), and the one \<open>Grid\<close> object.\<close>

record state =
  bus_obj :: "ref \<Rightarrow> bus"
  line_obj :: "ref \<Rightarrow> line"
  fault_obj :: "ref \<Rightarrow> fault"
  next_ref :: ref
  grid :: grid

text \<open>A method of \<open>TransmissionLine\<close> called on the line object \<open>r\<close>: only that
  object changes (a line holds no reference to the grid).\<close>

definition on_line :: "ref \<Rightarrow> (line \<Rightarrow> line) \<Rightarrow> state \<Rightarrow> state" where
  "on_line r f s = s\<lparr>line_obj := (line_obj s)(r := f (line_obj s r))\<rparr>"

definition on_bus :: "ref \<Rightarrow> (bus \<Rightarrow> bus) \<Rightarrow> state \<Rightarrow> state" where
  "on_bus r f s = s\<lparr>bus_obj := (bus_obj s)(r := f (bus_obj s r))\<rparr>"

definition add_bus :: "ref \<Rightarrow> state \<Rightarrow> state" where
  "add_bus b s =
     (let i = bus_id (bus_obj s b); g = grid s
      in s\<lparr>grid := g\<lparr>buses := AList.update i b (buses g),
                       adjacency := AList.update i [] (adjacency g),
                       y_bus_valid := False\<rparr>\<rparr>)"

text \<open>\<open>add_line\<close> stores the line first and then reads \<open>self.adjacency[from_id]\<close>
  and \<open>self.adjacency[to_id]\<close>; a missing key raises \<open>KeyError\<close> at that point,
  with the mutations made so far in place.\<close>

definition add_line :: "ref \<Rightarrow> state \<Rightarrow> (error + ref) \<times> state" where
  "add_line l s =
     (let ln = line_obj s l;
          g1 = (grid s)\<lparr>lines := AList.update (line_id ln) l (lines (grid s))\<rparr>;
          from_id = bus_id (bus_obj s (from_bus ln));
          to_id = bus_id (bus_obj s (to_bus ln))
      in case map_of (adjacency g1) from_id of
           None \<Rightarrow> (Inl KeyError, s\<lparr>grid := g1\<rparr>)
         | Some adj_from \<Rightarrow>
             let g2 = (if to_id \<notin> set adj_from
                       then g1\<lparr>adjacency :=
                              AList.update from_id (adj_from @ [to_id]) (adjacency g1)\<rparr>
                       else g1)
             in case map_of (adjacency g2) to_id of
                  None \<Rightarrow> (Inl KeyError, s\<lparr>grid := g2\<rparr>)
                | Some adj_to \<Rightarrow>
                    let g3 = (if from_id \<notin> set adj_to
                              then g2\<lparr>adjacency :=
                                     AList.update to_id (adj_to @ [from_id]) (adjacency g2)\<rparr>
                              else g2)
                    in (Inr l, s\<lparr>grid := g3\<lparr>y_bus_valid := False\<rparr>\<rparr>))"

definition get_bus :: "state \<Rightarrow> int \<Rightarrow> ref option" where
  "get_bus s i = map_of (buses (grid s)) i"

definition get_line :: "state \<Rightarrow> int \<Rightarrow> ref option" where
  "get_line s i = map_of (lines (grid s)) i"

definition n_buses :: "state \<Rightarrow> nat" where
  "n_buses s = length (buses (grid s))"

text \<open>Matrices as lists of rows: \<open>np.zeros((n, n))\<close> and the in-place update
  \<open>m[i, j] += v\<close>.\<close>

definition zeros :: "nat \<Rightarrow> complex list list" where
  "zeros n = replicate n (replicate n 0)"

definition mat_add :: "complex list list \<Rightarrow> nat \<Rightarrow> nat \<Rightarrow> complex \<Rightarrow> complex list list" where
  "mat_add Y i j v = Y[i := (Y ! i)[j := Y ! i ! j + v]]"

text \<open>The canonical bus ordering: \<open>sorted(self.buses.keys())\<close> and the dictionary
  \<open>{bus_id: idx for idx, bus_id in enumerate(bus_ids)}\<close>.\<close>

definition sorted_bus_ids :: "state \<Rightarrow> int list" where
  "sorted_bus_ids s = sort (map fst (buses (grid s)))"

definition index_map :: "state \<Rightarrow> (int \<times> nat) list" where
  "index_map s = zip (sorted_bus_ids s) [0..<length (sorted_bus_ids s)]"

text \<open>The loop of \<open>build_y_bus\<close> over \<open>self.lines.values()\<close>.\<close>

fun y_bus_loop ::
    "(ref \<Rightarrow> bus) \<Rightarrow> (ref \<Rightarrow> line) \<Rightarrow> (int \<times> nat) list \<Rightarrow> ref list \<Rightarrow> complex list list
       \<Rightarrow> error + complex list list" where
  "y_bus_loop bo lo idx [] Y = Inr Y"
| "y_bus_loop bo lo idx (r # rs) Y =
     (if \<not> is_closed (lo r) then y_bus_loop bo lo idx rs Y
      else case map_of idx (bus_id (bo (from_bus (lo r)))) of
             None \<Rightarrow> Inl KeyError
           | Some i \<Rightarrow>
               (case map_of idx (bus_id (bo (to_bus (lo r)))) of
                  None \<Rightarrow> Inl KeyError
                | Some j \<Rightarrow>
                    let y_series = y_pu (lo r);
                        y_shunt = Complex 0 (b_pu (lo r) / 2);
                        Y1 = mat_add Y i j (- y_series);
                        Y2 = mat_add Y1 j i (- y_series);
                        Y3 = mat_add Y2 i i (y_series + y_shunt);
                        Y4 = mat_add Y3 j j (y_series + y_shunt)
                    in y_bus_loop bo lo idx rs Y4))"

definition build_y_bus :: "state \<Rightarrow> (error + complex list list) \<times> state" where
  "build_y_bus s =
     (let g = grid s
      in if y_bus_valid g \<and> y_bus g \<noteq> None then (Inr (the (y_bus g)), s)
         else
           let n = n_buses s;
               g1 = g\<lparr>bus_id_to_idx := index_map s,
                      idx_to_bus_id := zip [0..<length (sorted_bus_ids s)] (sorted_bus_ids s)\<rparr>
           in case y_bus_loop (bus_obj s) (line_obj s) (index_map s)
                     (map snd (lines g)) (zeros n) of
                Inl e \<Rightarrow> (Inl e, s\<lparr>grid := g1\<rparr>)
              | Inr Y \<Rightarrow> (Inr Y, s\<lparr>grid := g1\<lparr>y_bus := Some Y, y_bus_valid := True\<rparr>\<rparr>))"

fun clear_lines_loop :: "ref list \<Rightarrow> state \<Rightarrow> state" where
  "clear_lines_loop [] s = s"
| "clear_lines_loop (r # rs) s =
     (let s1 = on_line r clear_fault s;
          s2 = (if \<not> is_closed (line_obj s1 r) then on_line r close_line s1 else s1)
      in clear_lines_loop rs s2)"

definition bus_clear_fault :: "bus \<Rightarrow> bus" where
  "bus_clear_fault b = b\<lparr>bus_is_faulted := False, bus_fault_type := None\<rparr>"

definition bus_apply_fault :: "string \<Rightarrow> bus \<Rightarrow> bus" where
  "bus_apply_fault ft b = b\<lparr>bus_is_faulted := True, bus_fault_type := Some ft\<rparr>"

definition Grid_clear_all_faults :: "state \<Rightarrow> state" where
  "Grid_clear_all_faults s =
     clear_lines_loop (map snd (lines (grid s)))
       (fold (\<lambda>r. on_bus r bus_clear_fault) (map snd (buses (grid s))) s)"

definition invalidate_matrices :: "state \<Rightarrow> state" where
  "invalidate_matrices s = s\<lparr>grid := (grid s)\<lparr>y_bus_valid := False\<rparr>\<rparr>"

section \<open>The graph-based detector (\<open>detection/graph_based.py\<close>)\<close>















section \<open>The PI-model contribution of a line, in the words of the specification\<close>

text \<open>What one closed line contributes to entry \<open>(a, b)\<close> of the Y-bus: \<open>- y\<close> at
  \<open>(i, j)\<close> and \<open>(j, i)\<close>, \<open>y + j b/2\<close> at \<open>(i, i)\<close> and \<open>(j, j)\<close>, where \<open>i\<close> and \<open>j\<close>
  are the indices of its terminals. The series admittance is written with the
  guard of \<open>y_pu\<close>.\<close>

definition pi_model_contribution :: "(int \<times> nat) list \<Rightarrow> (ref \<Rightarrow> bus) \<Rightarrow> line \<Rightarrow> nat \<Rightarrow> nat \<Rightarrow> complex" where
  "pi_model_contribution idx bo l a b =
     (let i = the (map_of idx (bus_id (bo (from_bus l))));
          j = the (map_of idx (bus_id (bo (to_bus l))));
          y = (if cmod (Complex (r_pu l) (x_pu l)) > 1 / 10 ^ 10
               then 1 / Complex (r_pu l) (x_pu l) else 0);
          half_shunt = Complex 0 (b_pu l / 2)
      in (if a = i \<and> b = j then - y else 0) + (if a = j \<and> b = i then - y else 0)
         + (if a = i \<and> b = i then y + half_shunt else 0)
         + (if a = j \<and> b = j then y + half_shunt else 0))"

text \<open>An \<open>n \<times> n\<close> matrix.\<close>

definition square :: "nat \<Rightarrow> complex list list \<Rightarrow> bool" where
  "square n Y = (length Y = n \<and> list_all (\<lambda>row. length row = n) Y)"

section \<open>Example states\<close>

text \<open>Stores in which the bus object \<open>r\<close> has key \<open>r\<close> and every line object joins
  bus object 0 to bus object 1 with \<open>r_pu = 1\<close>, \<open>x_pu = 0\<close>, \<open>b_pu = 0\<close>; the empty
  grid over them; and the grid built by \<open>add_bus\<close>, \<open>add_bus\<close>, \<open>add_line\<close>.\<close>

definition example_buses :: "ref \<Rightarrow> bus" where
  "example_buses r = Bus (int r) [] ''pq'' 220 0 0"

definition example_lines :: "ref \<Rightarrow> line" where
  "example_lines r = TransmissionLine (int r) 0 1 1 484 0 0 400"

definition example_faults :: "ref \<Rightarrow> fault" where
  "example_faults r =
     \<lparr>f_fault_type = SLG, location_type = ''bus'', element_id = 0, position = 1 / 2,
      resistance = 0, is_active = False, detected = False, detected_location = None\<rparr>"

definition empty_state :: state where
  "empty_state = \<lparr>bus_obj = example_buses, line_obj = example_lines,
                   fault_obj = example_faults, next_ref = 0, grid = Grid ''g''\<rparr>"

definition two_bus_state :: state where
  "two_bus_state = snd (add_line 0 (add_bus 1 (add_bus 0 empty_state)))"

text \<open>The same two-bus grid with a line of series impedance \<open>10\<^sup>-\<^sup>1\<^sup>1\<close> per unit.\<close>

definition tiny_lines :: "ref \<Rightarrow> line" where
  "tiny_lines r = TransmissionLine (int r) 0 1 1 (484 / 10 ^ 11) 0 0 400"

definition tiny_state :: state where
  "tiny_state = snd (add_line 0 (add_bus 1 (add_bus 0
     \<lparr>bus_obj = example_buses, line_obj = tiny_lines,
      fault_obj = example_faults, next_ref = 0, grid = Grid ''g''\<rparr>)))"





text \<open>A three-bus grid: line 0 joins buses 0 and 1 with \<open>r = x = 1\<close> and \<open>b = 2\<close> per
  unit and is closed; line 1 joins buses 1 and 2 and has been opened.\<close>

definition pi_lines :: "ref \<Rightarrow> line" where
  "pi_lines r = (if r = 0 then TransmissionLine 0 0 1 1 484 484 (2 / 484) 400
                 else TransmissionLine (int r) 1 2 1 484 0 0 400)"

definition pi_state :: state where
  "pi_state = on_line 1 open_line
     (snd (add_line 1 (snd (add_line 0 (add_bus 2 (add_bus 1 (add_bus 0
        \<lparr>bus_obj = example_buses, line_obj = pi_lines,
         fault_obj = example_faults, next_ref = 0, grid = Grid ''g''\<rparr>)))))))"

text \<open>The two-bus grid after \<open>build_y_bus\<close>; the same after its line has then been
  opened; and the grid left by \<open>add_line\<close> on an empty grid.\<close>

definition built_state :: state where
  "built_state = snd (build_y_bus two_bus_state)"

definition stale_state :: state where
  "stale_state = on_line 0 open_line built_state"

definition dangling_state :: state where
  "dangling_state = snd (add_line 0 empty_state)"

section \<open>Properties of the line operations\<close>

text \<open>
  C10. \<open>close_line\<close> sets \<open>is_closed\<close> to true and also resets \<open>is_faulted\<close> to
  false and \<open>fault_type\<close> to \<open>None\<close>; every other field of the line (identity,
  terminals, impedances, rating, fault location, flow values) is unchanged.
\<close>

theorem close_line_frame:
  "is_closed (close_line l) = True \<and> is_faulted (close_line l) = False
   \<and> fault_type (close_line l) = None
   \<and> close_line l = l\<lparr>is_closed := True, is_faulted := False, fault_type := None\<rparr>
   \<and> line_id (close_line l) = line_id l
   \<and> from_bus (close_line l) = from_bus l \<and> to_bus (close_line l) = to_bus l
   \<and> length_km (close_line l) = length_km l
   \<and> r_ohm (close_line l) = r_ohm l \<and> x_ohm (close_line l) = x_ohm l
   \<and> b_siemens (close_line l) = b_siemens l
   \<and> r_pu (close_line l) = r_pu l \<and> x_pu (close_line l) = x_pu l
   \<and> b_pu (close_line l) = b_pu l
   \<and> r0_pu (close_line l) = r0_pu l \<and> x0_pu (close_line l) = x0_pu l
   \<and> rating_mva (close_line l) = rating_mva l
   \<and> fault_location (close_line l) = fault_location l
   \<and> current_pu (close_line l) = current_pu l
   \<and> power_flow_mw (close_line l) = power_flow_mw l
   \<and> loading_percent (close_line l) = loading_percent l
   \<and> z_pu (close_line l) = z_pu l \<and> y_pu (close_line l) = y_pu l
   \<and> z0_pu (close_line l) = z0_pu l"
  by (simp add: close_line_def z_pu_def y_pu_def z0_pu_def)

section \<open>Properties of the fault models\<close>



lemma eps_pos: "(0::real) < 1 / 10 ^ 10" by simp










section \<open>Properties of the network\<close>

lemma ex_bus_id [simp]: "bus_id (example_buses r) = int r"
  by (simp add: example_buses_def Bus_def)

lemma ex_line_fields [simp]:
  "line_id (example_lines r) = int r" "from_bus (example_lines r) = 0"
  "to_bus (example_lines r) = 1" "is_closed (example_lines r) = True"
  "r_pu (example_lines r) = 1" "x_pu (example_lines r) = 0" "b_pu (example_lines r) = 0"
  by (simp_all add: example_lines_def TransmissionLine_def IMPEDANCE_BASE_def)

text \<open>
  C4, as stated, fails: adding a line whose from-bus is unknown to an empty grid
  raises \<open>KeyError\<close>, but the line map already holds the new line.
\<close>

theorem add_line_counterexample:
  "fst (add_line 0 empty_state) = Inl KeyError
   \<and> lines (grid empty_state) = []
   \<and> lines (grid (snd (add_line 0 empty_state))) = [(0, 0)]"
  by (simp add: add_line_def empty_state_def Grid_def Let_def)

lemma two_bus_grid:
  "grid two_bus_state = \<lparr>grid_name = ''g'', buses = [(0, 0), (1, 1)], lines = [(0, 0)],
      adjacency = [(0, [1]), (1, [0])], y_bus = None, y_bus_valid = False,
      bus_id_to_idx = [], idx_to_bus_id = []\<rparr>"
  by (simp add: two_bus_state_def add_line_def add_bus_def empty_state_def Grid_def Let_def)

lemma two_bus_objs: "bus_obj two_bus_state = example_buses" "line_obj two_bus_state = example_lines"
  by (simp_all add: two_bus_state_def add_line_def add_bus_def empty_state_def Grid_def Let_def)

lemma y_pu_ex: "y_pu (example_lines r) = 1"
  by (simp add: y_pu_def z_pu_def Complex_eq)

lemma build_two_bus:
  "fst (build_y_bus two_bus_state) = Inr [[1, -1], [-1, 1]]"
  apply (simp add: build_y_bus_def two_bus_grid two_bus_objs Let_def n_buses_def index_map_def sorted_bus_ids_def zeros_def mat_add_def y_pu_ex Complex_eq)
  done


text \<open>
  C4, amended. Adding a line with an endpoint missing from the adjacency index
  fails with \<open>KeyError\<close> and leaves the bus map, the stored objects and the cache
  flag unchanged; the line map has already received the line, and when only the
  to-bus is missing the from-bus's adjacency list has already received the to-bus
  key.
\<close>

theorem add_line_missing_endpoint:
  assumes "map_of (adjacency (grid s)) (bus_id (bus_obj s (from_bus (line_obj s l)))) = None
           \<or> map_of (adjacency (grid s)) (bus_id (bus_obj s (to_bus (line_obj s l)))) = None"
  shows "fst (add_line l s) = Inl KeyError
         \<and> bus_obj (snd (add_line l s)) = bus_obj s
         \<and> line_obj (snd (add_line l s)) = line_obj s
         \<and> buses (grid (snd (add_line l s))) = buses (grid s)
         \<and> y_bus_valid (grid (snd (add_line l s))) = y_bus_valid (grid s)
         \<and> lines (grid (snd (add_line l s)))
             = AList.update (line_id (line_obj s l)) l (lines (grid s))
         \<and> adjacency (grid (snd (add_line l s)))
             = (case map_of (adjacency (grid s)) (bus_id (bus_obj s (from_bus (line_obj s l)))) of
                  None \<Rightarrow> adjacency (grid s)
                | Some adj_from \<Rightarrow>
                    if bus_id (bus_obj s (to_bus (line_obj s l))) \<in> set adj_from
                    then adjacency (grid s)
                    else AList.update (bus_id (bus_obj s (from_bus (line_obj s l))))
                           (adj_from @ [bus_id (bus_obj s (to_bus (line_obj s l)))])
                           (adjacency (grid s)))"
proof (cases "map_of (adjacency (grid s)) (bus_id (bus_obj s (from_bus (line_obj s l))))")
  case None
  then show ?thesis
    by (simp add: add_line_def Let_def)
next
  case (Some adj_from)
  with assms have to_none:
    "map_of (adjacency (grid s)) (bus_id (bus_obj s (to_bus (line_obj s l)))) = None"
    by simp
  with Some have ne: "bus_id (bus_obj s (to_bus (line_obj s l)))
                      \<noteq> bus_id (bus_obj s (from_bus (line_obj s l)))"
    by auto
  show ?thesis
    using Some to_none ne by (simp add: add_line_def Let_def update_conv')
qed

theorem add_line_missing_endpoint_witness:
  "map_of (adjacency (grid empty_state)) (bus_id (bus_obj empty_state (from_bus (line_obj empty_state 0)))) = None
   \<and> fst (add_line 0 empty_state) = Inl KeyError
   \<and> buses (grid (snd (add_line 0 empty_state))) = buses (grid empty_state)
   \<and> lines (grid (snd (add_line 0 empty_state))) = [(0, 0)]
   \<and> adjacency (grid (snd (add_line 0 empty_state))) = []"
proof -
  have h: "map_of (adjacency (grid empty_state))
             (bus_id (bus_obj empty_state (from_bus (line_obj empty_state 0)))) = None"
    by (simp add: empty_state_def Grid_def)
  then have "map_of (adjacency (grid empty_state))
               (bus_id (bus_obj empty_state (from_bus (line_obj empty_state 0)))) = None
             \<or> map_of (adjacency (grid empty_state))
               (bus_id (bus_obj empty_state (to_bus (line_obj empty_state 0)))) = None"
    by blast
  from add_line_missing_endpoint [OF this] h show ?thesis
    by (simp add: empty_state_def Grid_def)
qed

lemma square_zeros: "square n (zeros n)"
  by (simp add: square_def zeros_def list_all_iff)

lemma square_mat_add:
  assumes "square n Y"
  shows "square n (mat_add Y i j v)"
proof (cases "i < length Y")
  case True
  with assms have "length ((Y ! i)[j := Y ! i ! j + v]) = n"
    by (simp add: square_def list_all_iff)
  moreover have "set (Y[i := (Y ! i)[j := Y ! i ! j + v]])
                   \<subseteq> insert ((Y ! i)[j := Y ! i ! j + v]) (set Y)"
    by (rule set_update_subset_insert)
  ultimately show ?thesis
    using assms unfolding square_def mat_add_def list_all_iff by auto
next
  case False
  then have "Y[i := (Y ! i)[j := Y ! i ! j + v]] = Y"
    by (simp add: list_update_beyond)
  then show ?thesis
    using assms by (simp add: mat_add_def)
qed

lemma nth_mat_add:
  assumes "square n Y" "a < n" "b < n"
  shows "mat_add Y i j v ! a ! b = Y ! a ! b + (if a = i \<and> b = j then v else 0)"
proof -
  from assms have la: "a < length Y" and lb: "b < length (Y ! a)"
    by (auto simp: square_def list_all_iff)
  show ?thesis
  proof (cases "a = i")
    case True
    with la lb show ?thesis
      by (simp add: mat_add_def nth_list_update)
  next
    case False
    then show ?thesis
      by (simp add: mat_add_def)
  qed
qed

lemma zeros_nth: "a < n \<Longrightarrow> b < n \<Longrightarrow> zeros n ! a ! b = 0"
  by (simp add: zeros_def)

lemma y_bus_loop_entries:
  assumes "y_bus_loop bo lo idx rs Y = Inr Y'" "square n Y" "a < n" "b < n"
  shows "square n Y' \<and>
         Y' ! a ! b = Y ! a ! b
            + (\<Sum>r\<leftarrow>filter (\<lambda>r. is_closed (lo r)) rs. pi_model_contribution idx bo (lo r) a b)"
  using assms
proof (induction rs arbitrary: Y)
  case Nil
  then show ?case by simp
next
  case (Cons r rs)
  show ?case
  proof (cases "is_closed (lo r)")
    case False
    with Cons show ?thesis by simp
  next
    case True
    from True Cons.prems(1) obtain i j where
      i: "map_of idx (bus_id (bo (from_bus (lo r)))) = Some i" and
      j: "map_of idx (bus_id (bo (to_bus (lo r)))) = Some j"
      by (auto split: option.splits)
    define y where "y = y_pu (lo r)"
    define sh where "sh = Complex 0 (b_pu (lo r) / 2)"
    define Y1 where "Y1 = mat_add Y i j (- y)"
    define Y2 where "Y2 = mat_add Y1 j i (- y)"
    define Y3 where "Y3 = mat_add Y2 i i (y + sh)"
    define Y4 where "Y4 = mat_add Y3 j j (y + sh)"
    from True i j Cons.prems(1) have rec: "y_bus_loop bo lo idx rs Y4 = Inr Y'"
      by (simp add: Let_def Y4_def Y3_def Y2_def Y1_def y_def sh_def)
    have sq1: "square n Y1" unfolding Y1_def by (rule square_mat_add [OF Cons.prems(2)])
    have sq2: "square n Y2" unfolding Y2_def by (rule square_mat_add [OF sq1])
    have sq3: "square n Y3" unfolding Y3_def by (rule square_mat_add [OF sq2])
    have sq: "square n Y4" unfolding Y4_def by (rule square_mat_add [OF sq3])
    have e1: "Y1 ! a ! b = Y ! a ! b + (if a = i \<and> b = j then - y else 0)"
      unfolding Y1_def by (rule nth_mat_add [OF Cons.prems(2,3,4)])
    have e2: "Y2 ! a ! b = Y1 ! a ! b + (if a = j \<and> b = i then - y else 0)"
      unfolding Y2_def by (rule nth_mat_add [OF sq1 Cons.prems(3,4)])
    have e3: "Y3 ! a ! b = Y2 ! a ! b + (if a = i \<and> b = i then y + sh else 0)"
      unfolding Y3_def by (rule nth_mat_add [OF sq2 Cons.prems(3,4)])
    have e4: "Y4 ! a ! b = Y3 ! a ! b + (if a = j \<and> b = j then y + sh else 0)"
      unfolding Y4_def by (rule nth_mat_add [OF sq3 Cons.prems(3,4)])
    have c: "pi_model_contribution idx bo (lo r) a b =
               (if a = i \<and> b = j then - y else 0) + (if a = j \<and> b = i then - y else 0)
               + (if a = i \<and> b = i then y + sh else 0)
               + (if a = j \<and> b = j then y + sh else 0)"
      unfolding pi_model_contribution_def Let_def i j option.sel y_def sh_def y_pu_def z_pu_def
      by (simp only: Complex_eq_0 [symmetric] zero_complex.code)
    have entry: "Y4 ! a ! b = Y ! a ! b + pi_model_contribution idx bo (lo r) a b"
      unfolding e4 e3 e2 e1 c by (simp only: add.assoc)
    from Cons.IH [OF rec sq Cons.prems(3,4)] entry True show ?thesis
      by (simp add: add.assoc)
  qed
qed

lemma index_map_lt: "map_of (index_map s) k = Some i \<Longrightarrow> i < n_buses s"
  by (auto simp: index_map_def sorted_bus_ids_def n_buses_def dest!: map_of_SomeD set_zip_rightD)

lemma index_map_dom:
  "k \<in> fst ` set (buses (grid s)) \<Longrightarrow> \<exists>i. map_of (index_map s) k = Some i"
proof -
  assume "k \<in> fst ` set (buses (grid s))"
  then have "k \<in> set (sorted_bus_ids s)"
    by (simp add: sorted_bus_ids_def)
  then have "map_of (index_map s) k \<noteq> None"
    unfolding index_map_def by (subst map_of_zip_is_None) auto
  then show ?thesis by auto
qed

lemma y_bus_loop_succeeds:
  assumes "\<forall>r\<in>set rs. is_closed (lo r) \<longrightarrow>
             map_of idx (bus_id (bo (from_bus (lo r)))) \<noteq> None
             \<and> map_of idx (bus_id (bo (to_bus (lo r)))) \<noteq> None"
  shows "\<exists>Y'. y_bus_loop bo lo idx rs Y = Inr Y'"
  using assms by (induction rs arbitrary: Y) (auto simp: Let_def)

lemma index_map_nth:
  assumes "map_of (index_map s) k = Some i"
  shows "sorted_bus_ids s ! i = k"
proof -
  from assms have "(k, i) \<in> set (zip (sorted_bus_ids s) [0..<length (sorted_bus_ids s)])"
    unfolding index_map_def by (rule map_of_SomeD)
  then obtain m where "sorted_bus_ids s ! m = k" "[0..<length (sorted_bus_ids s)] ! m = i"
      "m < length (sorted_bus_ids s)"
    by (auto simp: in_set_zip)
  then show ?thesis by simp
qed

lemma y_bus_loop_fails:
  assumes "\<exists>r\<in>set rs. is_closed (lo r)
             \<and> (map_of idx (bus_id (bo (from_bus (lo r)))) = None
                \<or> map_of idx (bus_id (bo (to_bus (lo r)))) = None)"
  shows "y_bus_loop bo lo idx rs Y = Inl KeyError"
  using assms by (induction rs arbitrary: Y) (auto simp: Let_def split: option.splits)

lemma y_bus_loop_square:
  assumes "y_bus_loop bo lo idx rs Y = Inr Y'" "square n Y"
  shows "square n Y'"
  using assms
  by (induction rs arbitrary: Y)
     (auto simp: Let_def square_mat_add split: if_splits option.splits)

lemma index_map_None:
  "k \<notin> fst ` set (buses (grid s)) \<Longrightarrow> map_of (index_map s) k = None"
  unfolding index_map_def by (subst map_of_zip_is_None) (auto simp: sorted_bus_ids_def)

text \<open>
  C1, amended. \<open>build_y_bus\<close> returns the cached matrix, and changes nothing, when
  the cache is marked valid, whatever the lines are now. Otherwise, when the
  terminals of every closed line are keys of the bus map, it returns the \<open>n \<times> n\<close>
  matrix whose entry \<open>(a, b)\<close> is the sum, over exactly the lines with \<open>is_closed\<close>,
  of the PI-model contribution with series admittance \<open>1 / (r + j x)\<close> when
  \<open>|r + j x| > 10\<^sup>-\<^sup>1\<^sup>0\<close> and \<open>0\<close> otherwise; indices follow the ascending bus keys;
  the matrix is cached and marked valid. Otherwise (a closed line has a terminal
  that is not a key of the bus map) it raises \<open>KeyError\<close> and the cache is as before.
\<close>

theorem build_y_bus_entries:
  "if y_bus_valid (grid s) \<and> y_bus (grid s) \<noteq> None
   then build_y_bus s = (Inr (the (y_bus (grid s))), s)
   else if \<forall>r\<in>set (map snd (lines (grid s))). is_closed (line_obj s r) \<longrightarrow>
             bus_id (bus_obj s (from_bus (line_obj s r))) \<in> fst ` set (buses (grid s))
             \<and> bus_id (bus_obj s (to_bus (line_obj s r))) \<in> fst ` set (buses (grid s))
   then \<exists>Y. fst (build_y_bus s) = Inr Y
           \<and> square (n_buses s) Y
           \<and> (\<forall>a b. a < n_buses s \<and> b < n_buses s \<longrightarrow>
                Y ! a ! b =
                  (\<Sum>r\<leftarrow>filter (\<lambda>r. is_closed (line_obj s r)) (map snd (lines (grid s))).
                     pi_model_contribution (index_map s) (bus_obj s) (line_obj s r) a b))
           \<and> y_bus (grid (snd (build_y_bus s))) = Some Y
           \<and> y_bus_valid (grid (snd (build_y_bus s)))
           \<and> sorted (sorted_bus_ids s)
           \<and> (\<forall>k i. map_of (index_map s) k = Some i \<longrightarrow>
                 i < n_buses s \<and> sorted_bus_ids s ! i = k)
   else fst (build_y_bus s) = Inl KeyError
        \<and> y_bus (grid (snd (build_y_bus s))) = y_bus (grid s)
        \<and> y_bus_valid (grid (snd (build_y_bus s))) = y_bus_valid (grid s)"
proof (cases "y_bus_valid (grid s) \<and> y_bus (grid s) \<noteq> None")
  case True
  then show ?thesis by (simp add: build_y_bus_def Let_def)
next
  case cache: False
  show ?thesis
  proof (cases "\<forall>r\<in>set (map snd (lines (grid s))). is_closed (line_obj s r) \<longrightarrow>
             bus_id (bus_obj s (from_bus (line_obj s r))) \<in> fst ` set (buses (grid s))
             \<and> bus_id (bus_obj s (to_bus (line_obj s r))) \<in> fst ` set (buses (grid s))")
    case ends: True
    have "\<forall>r\<in>set (map snd (lines (grid s))). is_closed (line_obj s r) \<longrightarrow>
          map_of (index_map s) (bus_id (bus_obj s (from_bus (line_obj s r)))) \<noteq> None
          \<and> map_of (index_map s) (bus_id (bus_obj s (to_bus (line_obj s r)))) \<noteq> None"
      using ends index_map_dom by (metis option.distinct(1))
    then obtain Y where loop:
      "y_bus_loop (bus_obj s) (line_obj s) (index_map s) (map snd (lines (grid s)))
         (zeros (n_buses s)) = Inr Y"
      using y_bus_loop_succeeds by blast
    have sq: "square (n_buses s) Y"
      using y_bus_loop_square [OF loop square_zeros] .
    have entry: "\<forall>a b. a < n_buses s \<and> b < n_buses s \<longrightarrow> Y ! a ! b =
      (\<Sum>r\<leftarrow>filter (\<lambda>r. is_closed (line_obj s r)) (map snd (lines (grid s))).
         pi_model_contribution (index_map s) (bus_obj s) (line_obj s r) a b)"
    proof (intro allI impI)
      fix a b assume "a < n_buses s \<and> b < n_buses s"
      then have a: "a < n_buses s" and b: "b < n_buses s" by simp_all
      from y_bus_loop_entries [OF loop square_zeros a b] a b
      show "Y ! a ! b =
        (\<Sum>r\<leftarrow>filter (\<lambda>r. is_closed (line_obj s r)) (map snd (lines (grid s))).
           pi_model_contribution (index_map s) (bus_obj s) (line_obj s r) a b)"
        by (simp add: zeros_nth)
    qed
    from cache loop have res: "build_y_bus s =
        (Inr Y, s\<lparr>grid := (grid s)\<lparr>bus_id_to_idx := index_map s,
            idx_to_bus_id := zip [0..<length (sorted_bus_ids s)] (sorted_bus_ids s),
            y_bus := Some Y, y_bus_valid := True\<rparr>\<rparr>)"
      by (auto simp: build_y_bus_def Let_def)
    have srt: "sorted (sorted_bus_ids s)"
      by (simp add: sorted_bus_ids_def)
    have idx: "\<forall>k i. map_of (index_map s) k = Some i \<longrightarrow>
                 i < n_buses s \<and> sorted_bus_ids s ! i = k"
      using index_map_lt index_map_nth by blast
    have fin: "\<exists>Y. fst (build_y_bus s) = Inr Y
           \<and> square (n_buses s) Y
           \<and> (\<forall>a b. a < n_buses s \<and> b < n_buses s \<longrightarrow>
                Y ! a ! b =
                  (\<Sum>r\<leftarrow>filter (\<lambda>r. is_closed (line_obj s r)) (map snd (lines (grid s))).
                     pi_model_contribution (index_map s) (bus_obj s) (line_obj s r) a b))
           \<and> y_bus (grid (snd (build_y_bus s))) = Some Y
           \<and> y_bus_valid (grid (snd (build_y_bus s)))
           \<and> sorted (sorted_bus_ids s)
           \<and> (\<forall>k i. map_of (index_map s) k = Some i \<longrightarrow>
                 i < n_buses s \<and> sorted_bus_ids s ! i = k)"
      apply (rule exI [of _ Y])
      using sq entry srt idx by (simp add: res)
    show ?thesis
      by (simp only: if_not_P [OF cache] if_P [OF ends]) (rule fin)
  next
    case noends: False
    then have "\<exists>r\<in>set (map snd (lines (grid s))). is_closed (line_obj s r)
             \<and> (map_of (index_map s) (bus_id (bus_obj s (from_bus (line_obj s r)))) = None
                \<or> map_of (index_map s) (bus_id (bus_obj s (to_bus (line_obj s r)))) = None)"
      using index_map_None by blast
    then have loop: "y_bus_loop (bus_obj s) (line_obj s) (index_map s) (map snd (lines (grid s)))
         (zeros (n_buses s)) = Inl KeyError"
      by (rule y_bus_loop_fails)
    from cache loop have fin: "fst (build_y_bus s) = Inl KeyError
        \<and> y_bus (grid (snd (build_y_bus s))) = y_bus (grid s)
        \<and> y_bus_valid (grid (snd (build_y_bus s))) = y_bus_valid (grid s)"
      by (auto simp: build_y_bus_def Let_def)
    show ?thesis
      by (simp only: if_not_P [OF cache] if_not_P [OF noends]) (rule fin)
  qed
qed


lemma pi_fields:
  "line_id (pi_lines r) = int r"
  "from_bus (pi_lines 0) = 0" "to_bus (pi_lines 0) = 1"
  "from_bus (pi_lines (Suc 0)) = 1" "to_bus (pi_lines (Suc 0)) = 2"
  "is_closed (pi_lines r)"
  "r_pu (pi_lines 0) = 1" "x_pu (pi_lines 0) = 1" "b_pu (pi_lines 0) = 2"
  by (simp_all add: pi_lines_def TransmissionLine_def IMPEDANCE_BASE_def)

lemma pi_grid:
  "grid pi_state = \<lparr>grid_name = ''g'', buses = [(0, 0), (1, 1), (2, 2)],
      lines = [(0, 0), (1, 1)],
      adjacency = [(0, [1]), (1, [0, 2]), (2, [1])], y_bus = None, y_bus_valid = False,
      bus_id_to_idx = [], idx_to_bus_id = []\<rparr>"
  "bus_obj pi_state = example_buses"
  "line_obj pi_state = pi_lines(1 := open_line (pi_lines 1))"
  by (simp_all add: pi_state_def on_line_def add_line_def add_bus_def Grid_def Let_def pi_fields)

lemma pi_y_pu: "y_pu (pi_lines 0) = Complex (1 / 2) (- 1 / 2)"
proof -
  have "1 \<le> sqrt 2" by simp
  moreover have "(1::real) / 10 ^ 10 < 1" by simp
  ultimately have "1 / 10 ^ 10 < sqrt 2" by (rule less_le_trans [rotated])
  then have "cmod (Complex 1 1) > 1 / 10 ^ 10"
    by (simp add: cmod_def)
  then have "y_pu (pi_lines 0) = 1 / Complex 1 1"
    by (simp add: y_pu_def z_pu_def pi_fields)
  also have "\<dots> = Complex (1 / 2) (- 1 / 2)"
    by (simp add: complex_eq_iff Re_divide Im_divide power2_eq_square)
  finally show ?thesis .
qed

lemma build_pi:
  "fst (build_y_bus pi_state) =
     Inr [[Complex (1 / 2) (1 / 2), Complex (- 1 / 2) (1 / 2), 0],
          [Complex (- 1 / 2) (1 / 2), Complex (1 / 2) (1 / 2), 0],
          [0, 0, 0]]"
  by (simp add: build_y_bus_def pi_grid pi_fields pi_y_pu Let_def n_buses_def index_map_def
      sorted_bus_ids_def zeros_def mat_add_def open_line_def numeral_3_eq_3 upt_rec
      complex_eq_iff)

lemma built_grid:
  "grid built_state = \<lparr>grid_name = ''g'', buses = [(0, 0), (1, 1)], lines = [(0, 0)],
      adjacency = [(0, [1]), (1, [0])], y_bus = Some [[1, - 1], [- 1, 1]], y_bus_valid = True,
      bus_id_to_idx = [(0, 0), (1, 1)], idx_to_bus_id = [(0, 0), (1, 1)]\<rparr>"
  "bus_obj built_state = example_buses" "line_obj built_state = example_lines"
  by (simp_all add: built_state_def build_y_bus_def two_bus_grid two_bus_objs Let_def n_buses_def
      index_map_def sorted_bus_ids_def zeros_def mat_add_def y_pu_ex Complex_eq upt_rec)

lemma stale_grid:
  "grid stale_state = grid built_state"
  "bus_obj stale_state = example_buses"
  "line_obj stale_state = example_lines(0 := open_line (example_lines 0))"
  by (simp_all add: stale_state_def on_line_def built_grid)

lemma dangling_grid:
  "grid dangling_state = \<lparr>grid_name = ''g'', buses = [], lines = [(0, 0)],
      adjacency = [], y_bus = None, y_bus_valid = False,
      bus_id_to_idx = [], idx_to_bus_id = []\<rparr>"
  "bus_obj dangling_state = example_buses" "line_obj dangling_state = example_lines"
  by (simp_all add: dangling_state_def add_line_def empty_state_def Grid_def Let_def)

theorem build_y_bus_entries_witness:
  "build_y_bus built_state = (Inr [[1, - 1], [- 1, 1]], built_state)
   \<and> fst (build_y_bus pi_state) =
       Inr [[Complex (1 / 2) (1 / 2), Complex (- 1 / 2) (1 / 2), 0],
            [Complex (- 1 / 2) (1 / 2), Complex (1 / 2) (1 / 2), 0],
            [0, 0, 0]]
   \<and> \<not> is_closed (line_obj pi_state 1)
   \<and> Complex (- 1 / 2) (1 / 2) =
       (\<Sum>r\<leftarrow>filter (\<lambda>r. is_closed (line_obj pi_state r)) (map snd (lines (grid pi_state))).
          pi_model_contribution (index_map pi_state) (bus_obj pi_state) (line_obj pi_state r) 0 1)
   \<and> y_bus_valid (grid (snd (build_y_bus pi_state)))
   \<and> fst (build_y_bus dangling_state) = Inl KeyError
   \<and> \<not> y_bus_valid (grid (snd (build_y_bus dangling_state)))"
proof -
  have n: "n_buses pi_state = 3"
    by (simp add: n_buses_def pi_grid)
  have e: "[[Complex (1 / 2) (1 / 2), Complex (- 1 / 2) (1 / 2), 0],
            [Complex (- 1 / 2) (1 / 2), Complex (1 / 2) (1 / 2), 0],
            [0, 0, 0]] ! 0 ! 1 = Complex (- 1 / 2) (1 / 2)"
    by simp
  from build_y_bus_entries [of built_state]
  have 1: "build_y_bus built_state = (Inr [[1, - 1], [- 1, 1]], built_state)"
    by (simp add: built_grid)
  from build_y_bus_entries [of pi_state]
  have 2: "\<exists>Y. fst (build_y_bus pi_state) = Inr Y
           \<and> square (n_buses pi_state) Y
           \<and> (\<forall>a b. a < n_buses pi_state \<and> b < n_buses pi_state \<longrightarrow>
                Y ! a ! b =
                  (\<Sum>r\<leftarrow>filter (\<lambda>r. is_closed (line_obj pi_state r))
                         (map snd (lines (grid pi_state))).
                     pi_model_contribution (index_map pi_state) (bus_obj pi_state)
                       (line_obj pi_state r) a b))
           \<and> y_bus (grid (snd (build_y_bus pi_state))) = Some Y
           \<and> y_bus_valid (grid (snd (build_y_bus pi_state)))"
    by (simp add: pi_grid pi_fields open_line_def) blast
  from build_y_bus_entries [of dangling_state]
  have 3: "fst (build_y_bus dangling_state) = Inl KeyError
           \<and> \<not> y_bus_valid (grid (snd (build_y_bus dangling_state)))"
    by (simp add: dangling_grid)
  from 2 build_pi n e have 4: "Complex (- 1 / 2) (1 / 2) =
       (\<Sum>r\<leftarrow>filter (\<lambda>r. is_closed (line_obj pi_state r)) (map snd (lines (grid pi_state))).
          pi_model_contribution (index_map pi_state) (bus_obj pi_state) (line_obj pi_state r) 0 1)"
    by (metis Inr_inject zero_less_numeral one_less_numeral_iff semiring_norm(77))
  have 5: "\<not> is_closed (line_obj pi_state 1)"
    by (simp add: pi_grid open_line_def)
  from 1 2 3 4 5 build_pi show ?thesis by simp
qed

lemma tiny_grid:
  "grid tiny_state = \<lparr>grid_name = ''g'', buses = [(0, 0), (1, 1)], lines = [(0, 0)],
      adjacency = [(0, [1]), (1, [0])], y_bus = None, y_bus_valid = False,
      bus_id_to_idx = [], idx_to_bus_id = []\<rparr>"
  "bus_obj tiny_state = example_buses" "line_obj tiny_state = tiny_lines"
  by (simp_all add: tiny_state_def add_line_def add_bus_def Grid_def Let_def
      tiny_lines_def TransmissionLine_def)

lemma tiny_fields:
  "from_bus (tiny_lines r) = 0" "to_bus (tiny_lines r) = 1" "is_closed (tiny_lines r)"
  "r_pu (tiny_lines r) = 1 / 10 ^ 11" "x_pu (tiny_lines r) = 0" "b_pu (tiny_lines r) = 0"
  by (simp_all add: tiny_lines_def TransmissionLine_def IMPEDANCE_BASE_def)

lemma tiny_y_pu: "y_pu (tiny_lines r) = 0"
  by (simp add: y_pu_def z_pu_def tiny_fields Complex_eq cmod_def del: of_real_divide of_real_power)

text \<open>
  C1, as stated, fails in three ways. For a closed line with \<open>r + j x = 10\<^sup>-\<^sup>1\<^sup>1\<close> the
  code uses the series admittance \<open>0\<close>, not \<open>1 / (r + j x) = 10\<^sup>1\<^sup>1\<close>, and the matrix
  is zero. After a build, opening the only line leaves the cache marked valid, and
  the next \<open>build_y_bus\<close> returns the matrix in which the open line still
  contributes. With a line whose terminal is not a key of the bus map,
  \<open>build_y_bus\<close> raises \<open>KeyError\<close>.
\<close>

theorem build_y_bus_counterexample:
  "is_closed (line_obj tiny_state 0)
   \<and> \<not> y_bus_valid (grid tiny_state)
   \<and> fst (build_y_bus tiny_state) = Inr [[0, 0], [0, 0]]
   \<and> - (1 / Complex (r_pu (line_obj tiny_state 0)) (x_pu (line_obj tiny_state 0))) = - (10 ^ 11)
   \<and> \<not> is_closed (line_obj stale_state 0)
   \<and> lines (grid stale_state) = [(0, 0)]
   \<and> fst (build_y_bus stale_state) = Inr [[1, - 1], [- 1, 1]]
   \<and> fst (build_y_bus dangling_state) = Inl KeyError"
  by (simp add: build_y_bus_def tiny_grid tiny_fields tiny_y_pu Let_def n_buses_def index_map_def
      sorted_bus_ids_def zeros_def mat_add_def Complex_eq stale_grid built_grid dangling_grid
      open_line_def)

section \<open>Properties of the graph-based detector\<close>








section \<open>The cache flag under topology changes\<close>

lemma on_line_grid: "grid (on_line r f s) = grid s"
  by (simp add: on_line_def)

lemma on_bus_grid: "grid (on_bus r f s) = grid s"
  by (simp add: on_bus_def)

lemma clear_lines_loop_grid: "grid (clear_lines_loop rs s) = grid s"
  by (induction rs arbitrary: s) (simp_all add: Let_def on_line_grid)

lemma fold_on_bus_grid: "grid (fold (\<lambda>r. on_bus r f) rs s) = grid s"
  by (induction rs arbitrary: s) (simp_all add: on_bus_grid)

lemma Grid_clear_all_faults_grid: "grid (Grid_clear_all_faults s) = grid s"
  by (simp add: Grid_clear_all_faults_def clear_lines_loop_grid fold_on_bus_grid)

text \<open>
  C2 fails in the code. After \<open>build_y_bus\<close> on the two-bus grid the cache is
  valid; \<open>open_line\<close> on its only line leaves it valid, and the next \<open>build_y_bus\<close>
  returns the old matrix, whereas a rebuild (after \<open>invalidate_matrices\<close>, which
  nothing in the program calls) gives the zero matrix. \<open>close_line\<close>, \<open>clear_fault\<close>
  and \<open>Grid.clear_all_faults\<close>, which re-closes the line, leave the flag valid too.
\<close>

theorem breaker_toggle_keeps_cache_valid:
  "y_bus_valid (grid built_state)
   \<and> is_closed (line_obj built_state 0)
   \<and> \<not> is_closed (line_obj (on_line 0 open_line built_state) 0)
   \<and> y_bus_valid (grid (on_line 0 open_line built_state))
   \<and> fst (build_y_bus (on_line 0 open_line built_state)) = Inr [[1, - 1], [- 1, 1]]
   \<and> fst (build_y_bus (invalidate_matrices (on_line 0 open_line built_state)))
       = Inr [[0, 0], [0, 0]]
   \<and> y_bus_valid (grid (on_line 0 close_line (on_line 0 open_line built_state)))
   \<and> y_bus_valid (grid (on_line 0 clear_fault built_state))
   \<and> y_bus_valid (grid (Grid_clear_all_faults (on_line 0 open_line built_state)))
   \<and> is_closed (line_obj (Grid_clear_all_faults (on_line 0 open_line built_state)) 0)"
  by (simp add: on_line_grid Grid_clear_all_faults_grid built_grid build_y_bus_def
      invalidate_matrices_def on_line_def open_line_def Let_def n_buses_def index_map_def
      sorted_bus_ids_def zeros_def Grid_clear_all_faults_def on_bus_def clear_fault_def
      close_line_def)

section \<open>Properties of the binary64 models\<close>

lemma round_even_error: "\<bar>of_int (round_even x) - x\<bar> \<le> 1 / 2"
  unfolding round_even_def Let_def by (auto simp: abs_if) linarith+

lemma round_even_int [simp]: "round_even (of_int n) = n"
  by (simp add: round_even_def)

lemma ulp_pos: "0 < ulp x"
  by (simp add: ulp_def)

lemma ulp_normal:
  assumes "2 powr of_int e \<le> \<bar>x\<bar>" "\<bar>x\<bar> < 2 powr (of_int e + 1)" "- 1022 \<le> e"
  shows "ulp x = 2 powr (of_int e - 52)"
proof -
  have pos: "0 < \<bar>x\<bar>"
    using assms(1) by (smt (verit) powr_gt_zero)
  have "of_int e \<le> log 2 \<bar>x\<bar>"
    using assms(1) pos by (simp add: le_log_iff)
  moreover have "log 2 \<bar>x\<bar> < of_int e + 1"
    using assms(2) pos by (simp add: log_less_iff)
  ultimately have "\<lfloor>log 2 \<bar>x\<bar>\<rfloor> = e"
    by (simp add: floor_unique)
  then show ?thesis
    using assms(3) by (simp add: ulp_def)
qed

lemma ulp_subnormal:
  assumes "x \<noteq> 0" "\<bar>x\<bar> < 2 powr (- 1022)"
  shows "ulp x = 2 powr (- 1074)"
proof -
  have pos: "0 < \<bar>x\<bar>" using assms(1) by simp
  have "log 2 \<bar>x\<bar> < - 1022"
    using assms(2) pos by (simp add: log_less_iff)
  then have "\<lfloor>log 2 \<bar>x\<bar>\<rfloor> < - 1022"
    by (simp add: floor_less_iff)
  then have "max \<lfloor>log 2 \<bar>x\<bar>\<rfloor> (- 1022) = - 1022"
    by (intro max_absorb2) simp
  then show ?thesis
    by (simp only: ulp_def) simp
qed

lemma ulp_le:
  assumes "x \<noteq> 0"
  shows "ulp x \<le> 2 powr (- 52) * \<bar>x\<bar> + 2 powr (- 1074)"
proof (cases "\<lfloor>log 2 \<bar>x\<bar>\<rfloor> \<ge> - 1022")
  case True
  have pos: "0 < \<bar>x\<bar>" using assms by simp
  have "2 powr of_int \<lfloor>log 2 \<bar>x\<bar>\<rfloor> \<le> \<bar>x\<bar>"
    using pos by (simp add: le_log_iff [symmetric])
  moreover have "max \<lfloor>log 2 \<bar>x\<bar>\<rfloor> (- 1022) = \<lfloor>log 2 \<bar>x\<bar>\<rfloor>"
    using True by (rule max_absorb1)
  then have "ulp x = 2 powr (- 52 + of_int \<lfloor>log 2 \<bar>x\<bar>\<rfloor>)"
    by (simp only: ulp_def) simp
  then have "ulp x = 2 powr (- 52) * 2 powr of_int \<lfloor>log 2 \<bar>x\<bar>\<rfloor>"
    by (simp only: powr_add)
  ultimately have "ulp x \<le> 2 powr (- 52) * \<bar>x\<bar>"
    by simp
  then show ?thesis
    by (smt (verit) powr_gt_zero)
next
  case False
  then have "max \<lfloor>log 2 \<bar>x\<bar>\<rfloor> (- 1022) = - 1022"
    by (intro max_absorb2) simp
  then have "ulp x = 2 powr (- 1074)"
    by (simp only: ulp_def) simp
  then show ?thesis
    by (smt (verit) powr_gt_zero mult_nonneg_nonneg abs_ge_zero)
qed

lemma rnd_cases:
  "rnd x = Fin 0 \<and> x = 0
   \<or> (x \<noteq> 0 \<and> 2 ^ 1024 \<le> \<bar>of_int (round_even (x / ulp x)) * ulp x\<bar>
        \<and> rnd x = (if 0 < x then PInf else NInf))
   \<or> (x \<noteq> 0 \<and> \<bar>of_int (round_even (x / ulp x)) * ulp x\<bar> < 2 ^ 1024
        \<and> rnd x = Fin (of_int (round_even (x / ulp x)) * ulp x))"
  by (auto simp: rnd_def Let_def)

lemma rnd_error_ulp:
  assumes "rnd x = Fin y"
  shows "\<bar>y - x\<bar> \<le> ulp x / 2"
proof (cases "x = 0")
  case True
  with assms show ?thesis by (simp add: rnd_def ulp_pos less_imp_le)
next
  case False
  with assms have y: "y = of_int (round_even (x / ulp x)) * ulp x"
    by (auto simp: rnd_def Let_def split: if_splits)
  have "y - x = (of_int (round_even (x / ulp x)) - x / ulp x) * ulp x"
    unfolding y using ulp_pos [of x] by (simp add: left_diff_distrib)
  then have "\<bar>y - x\<bar> = \<bar>of_int (round_even (x / ulp x)) - x / ulp x\<bar> * ulp x"
    using ulp_pos [of x] by (simp add: abs_mult)
  also have "\<dots> \<le> 1 / 2 * ulp x"
    using round_even_error [of "x / ulp x"] ulp_pos [of x]
    by (intro mult_right_mono) (simp_all add: less_imp_le)
  finally show ?thesis by simp
qed

lemma rnd_error:
  assumes "rnd x = Fin y"
  shows "\<bar>y - x\<bar> \<le> 2 powr (- 53) * \<bar>x\<bar> + 2 powr (- 1075)"
proof (cases "x = 0")
  case True
  with assms show ?thesis by (simp add: rnd_def)
next
  case False
  have h: "(2::real) powr (- 52) / 2 = 2 powr (- 53)" "(2::real) powr (- 1074) / 2 = 2 powr (- 1075)"
    by (simp_all add: powr_minus field_simps)
  have "ulp x / 2 \<le> (2 powr (- 52) * \<bar>x\<bar> + 2 powr (- 1074)) / 2"
    using ulp_le [OF False] by (simp add: divide_right_mono)
  with rnd_error_ulp [OF assms]
  have "\<bar>y - x\<bar> \<le> (2 powr (- 52) * \<bar>x\<bar> + 2 powr (- 1074)) / 2"
    by (rule order_trans)
  also have "\<dots> = 2 powr (- 53) * \<bar>x\<bar> + 2 powr (- 1075)"
    using h by (simp add: add_divide_distrib)
  finally show ?thesis .
qed

lemma round_even_eq:
  assumes "\<bar>x - of_int m\<bar> < 1 / 2"
  shows "round_even x = m"
proof -
  have lo: "of_int m - 1 / 2 < x" and hi: "x < of_int m + 1 / 2"
    using assms by linarith+
  have "of_int (m - 1) \<le> x" using lo by simp
  then have 1: "m - 1 \<le> \<lfloor>x\<rfloor>" by (simp only: le_floor_iff)
  have "x < of_int (m + 1)" using hi by simp
  then have 2: "\<lfloor>x\<rfloor> < m + 1" by (simp only: floor_less_iff)
  from 1 2 have "\<lfloor>x\<rfloor> = m \<or> \<lfloor>x\<rfloor> = m - 1" by linarith
  then show ?thesis
  proof
    assume f: "\<lfloor>x\<rfloor> = m"
    then have "x - of_int m < 1 / 2" using hi by simp
    then show ?thesis by (simp add: round_even_def f)
  next
    assume f: "\<lfloor>x\<rfloor> = m - 1"
    have "1 / 2 < x - of_int (m - 1)" using lo by simp
    then show ?thesis by (simp add: round_even_def f)
  qed
qed

lemma pw_pos: "2 powr of_int (int n) = (2::real) ^ n"
  by (simp add: powr_realpow)

lemma pw_neg: "2 powr of_int (- int n) = 1 / (2::real) ^ n"
  by (simp add: powr_minus powr_realpow divide_inverse)

lemma rnd_eval:
  assumes "- 1022 \<le> e" "2 powr of_int e \<le> \<bar>x\<bar>" "\<bar>x\<bar> < 2 * 2 powr of_int e"
    and "\<bar>x * 2 ^ 52 / 2 powr of_int e - of_int m\<bar> < 1 / 2"
    and "\<bar>real_of_int m * 2 powr of_int e / 2 ^ 52\<bar> < 2 ^ 1024"
  shows "rnd x = Fin (of_int m * 2 powr of_int e / 2 ^ 52)"
proof -
  have x0: "x \<noteq> 0"
    using assms(2) by (smt (verit) powr_gt_zero)
  have "\<bar>x\<bar> < 2 powr (of_int e + 1)"
    using assms(3) by (simp add: powr_add)
  from ulp_normal [OF assms(2) this assms(1)]
  have u: "ulp x = 2 powr of_int e / 2 ^ 52"
    by (simp add: powr_diff powr_realpow [symmetric])
  have "x / ulp x = x * 2 ^ 52 / 2 powr of_int e"
    unfolding u by simp
  with assms(4) have "round_even (x / ulp x) = m"
    by (simp add: round_even_eq)
  then have "rnd x = (let y = real_of_int m * (2 powr of_int e / 2 ^ 52)
                      in if 2 ^ 1024 \<le> \<bar>y\<bar> then (if 0 < x then PInf else NInf) else Fin y)"
    using x0 unfolding rnd_def u by (simp only: if_False)
  with assms(5) show ?thesis
    by (simp only: Let_def times_divide_eq_right not_le [symmetric] if_False)
qed

lemma rnd_eval_pos:
  assumes "2 ^ n \<le> \<bar>x\<bar>" "\<bar>x\<bar> < 2 * 2 ^ n"
    and "\<bar>x * 2 ^ 52 / 2 ^ n - of_int m\<bar> < 1 / 2"
    and "\<bar>real_of_int m * 2 ^ n / 2 ^ 52\<bar> < 2 ^ 1024"
  shows "rnd x = Fin (of_int m * 2 ^ n / 2 ^ 52)"
  using rnd_eval [of "int n" x m] assms by (simp only: pw_pos)

lemma rnd_eval_neg:
  assumes "n \<le> 1022" "1 / 2 ^ n \<le> \<bar>x\<bar>" "\<bar>x\<bar> < 2 / 2 ^ n"
    and "\<bar>x * 2 ^ 52 * 2 ^ n - of_int m\<bar> < 1 / 2"
    and "\<bar>real_of_int m / (2 ^ n * 2 ^ 52)\<bar> < 2 ^ 1024"
  shows "rnd x = Fin (of_int m / (2 ^ n * 2 ^ 52))"
  using rnd_eval [of "- int n" x m] assms by (simp only: pw_neg) simp

lemma rnd_0 [simp]: "rnd 0 = Fin 0"
  by (simp add: rnd_def)

lemma eps_val: "eps_b64 = Fin (7737125245533627 / 2 ^ 86)"
  unfolding eps_b64_def
  using rnd_eval_neg [of 34 "1 / 10 ^ 10" 7737125245533627] by simp

lemma rnd_1: "rnd 1 = Fin 1"
  using rnd_eval_pos [of 0 1 "2 ^ 52"] by simp

lemma rnd_eps: "rnd (7737125245533627 / 2 ^ 86) = Fin (7737125245533627 / 2 ^ 86)"
  using rnd_eval_neg [of 34 "7737125245533627 / 2 ^ 86" 7737125245533627] by simp

lemma rnd_inv_eps: "rnd (2 ^ 86 / 7737125245533627) = Fin (10 ^ 10)"
  using rnd_eval_pos [of 33 "2 ^ 86 / 7737125245533627" 5242880000000000] by simp

lemma rnd_e10: "rnd (10 ^ 10) = Fin (10 ^ 10)"
  using rnd_eval_pos [of 33 "10 ^ 10" 5242880000000000] by simp

lemma LLL_at_zero:
  "ThreePhaseFault_b64 (Fin 1, Fin 0) (Fin 0, Fin 0) (Fin 0, Fin 0) (Fin 0, Fin 0) (Fin 0)
     = Inr ((Fin 0, Fin 0), (Fin (10 ^ 10), Fin 0), (Fin 0, Fin 0))"
  using rnd_eps rnd_inv_eps rnd_1
  by (simp add: ThreePhaseFault_b64_def c_sum_def of_float_def c_abs_def hypot_def fadd_def
      eps_val c_quot_def fge_def fdiv_def fmul_def fsub_def Let_def)

lemma a2_val:
  "c_prod a_b64 a_b64 = (Fin (- (4503599627370499 / 2 ^ 53)), Fin (- (975057921444245 / 2 ^ 50)))"
proof -
  have 1: "rnd ((2251799813685247 / 2 ^ 52) * (2251799813685247 / 2 ^ 52))
             = Fin (1125899906842623 / 2 ^ 52)"
    using rnd_eval_neg [of 3 "(2251799813685247 / 2 ^ 52) * (2251799813685247 / 2 ^ 52)"
        9007199254740984] by simp
  have 2: "rnd ((7800463371553963 / 2 ^ 53) * (7800463371553963 / 2 ^ 53))
             = Fin (6755399441055745 / 2 ^ 53)"
    using rnd_eval_neg [of 1 "(7800463371553963 / 2 ^ 53) * (7800463371553963 / 2 ^ 53)"
        6755399441055745] by simp
  have 3: "rnd (1125899906842623 / 2 ^ 52 - 6755399441055745 / 2 ^ 53)
             = Fin (- (4503599627370499 / 2 ^ 53))"
    using rnd_eval_neg [of 1 "1125899906842623 / 2 ^ 52 - 6755399441055745 / 2 ^ 53"
        "- 4503599627370499"] by simp
  have 4: "rnd (- ((2251799813685247 / 2 ^ 52) * (7800463371553963 / 2 ^ 53)))
             = Fin (- (975057921444245 / 2 ^ 51))"
    using rnd_eval_neg [of 2 "- ((2251799813685247 / 2 ^ 52) * (7800463371553963 / 2 ^ 53))"
        "- 7800463371553960"] by simp
  have 5: "rnd (- (975057921444245 / 2 ^ 51) + - (975057921444245 / 2 ^ 51))
             = Fin (- (975057921444245 / 2 ^ 50))"
    using rnd_eval_neg [of 1 "- (975057921444245 / 2 ^ 51) + - (975057921444245 / 2 ^ 51)"
        "- 7800463371553960"] by simp
  show ?thesis
    using 1 2 3 4 5
    by (simp add: c_prod_def a_b64_def fmul_def fsub_def fadd_def mult.commute)
qed

lemma prod_a2_e10:
  "c_prod (Fin (- (4503599627370499 / 2 ^ 53)), Fin (- (975057921444245 / 2 ^ 50)))
          (Fin (10 ^ 10), Fin 0)
     = (Fin (- (5242880000000003 / 2 ^ 20)), Fin (- (1135116817248339 / 2 ^ 17)))"
proof -
  have 1: "rnd (- (4503599627370499 / 2 ^ 53) * 10 ^ 10) = Fin (- (5242880000000003 / 2 ^ 20))"
    using rnd_eval_pos [of 32 "- (4503599627370499 / 2 ^ 53) * 10 ^ 10" "- 5242880000000003"]
    by simp
  have 2: "rnd (- (5242880000000003 / 2 ^ 20)) = Fin (- (5242880000000003 / 2 ^ 20))"
    using rnd_eval_pos [of 32 "- (5242880000000003 / 2 ^ 20)" "- 5242880000000003"] by simp
  have 3: "rnd (- (975057921444245 / 2 ^ 50) * 10 ^ 10) = Fin (- (1135116817248339 / 2 ^ 17))"
    using rnd_eval_pos [of 33 "- (975057921444245 / 2 ^ 50) * 10 ^ 10" "- 4540467268993356"]
    by simp
  have 4: "rnd (- (1135116817248339 / 2 ^ 17)) = Fin (- (1135116817248339 / 2 ^ 17))"
    using rnd_eval_pos [of 33 "- (1135116817248339 / 2 ^ 17)" "- 4540467268993356"] by simp
  show ?thesis
    using 1 2 3 4 by (simp add: c_prod_def fmul_def fsub_def fadd_def)
qed

lemma prod_a_e10:
  "c_prod a_b64 (Fin (10 ^ 10), Fin 0)
     = (Fin (- (2621439999999999 / 2 ^ 19)), Fin (2270233634496679 / 2 ^ 18))"
proof -
  have 1: "rnd (- (2251799813685247 / 2 ^ 52) * 10 ^ 10) = Fin (- (2621439999999999 / 2 ^ 19))"
    using rnd_eval_pos [of 32 "- (2251799813685247 / 2 ^ 52) * 10 ^ 10" "- 5242879999999998"]
    by simp
  have 2: "rnd (- (2621439999999999 / 2 ^ 19)) = Fin (- (2621439999999999 / 2 ^ 19))"
    using rnd_eval_pos [of 32 "- (2621439999999999 / 2 ^ 19)" "- 5242879999999998"] by simp
  have 3: "rnd (7800463371553963 / 2 ^ 53 * 10 ^ 10) = Fin (2270233634496679 / 2 ^ 18)"
    using rnd_eval_pos [of 33 "7800463371553963 / 2 ^ 53 * 10 ^ 10" 4540467268993358]
    by simp
  have 4: "rnd (2270233634496679 / 2 ^ 18) = Fin (2270233634496679 / 2 ^ 18)"
    using rnd_eval_pos [of 33 "2270233634496679 / 2 ^ 18" 4540467268993358] by simp
  show ?thesis
    using 1 2 3 4 by (simp add: c_prod_def a_b64_def fmul_def fsub_def fadd_def)
qed

lemma prod_zero: "c_prod (Fin x, Fin y) (Fin 0, Fin 0) = (Fin 0, Fin 0)"
  by (simp add: c_prod_def fmul_def fsub_def fadd_def)

lemma phases_e10:
  "sequence_to_phase (Fin 0, Fin 0) (Fin (10 ^ 10), Fin 0) (Fin 0, Fin 0)
     = ((Fin (10 ^ 10), Fin 0),
        (Fin (- (5242880000000003 / 2 ^ 20)), Fin (- (1135116817248339 / 2 ^ 17))),
        (Fin (- (2621439999999999 / 2 ^ 19)), Fin (2270233634496679 / 2 ^ 18)))"
proof -
  have 1: "rnd (- (5242880000000003 / 2 ^ 20)) = Fin (- (5242880000000003 / 2 ^ 20))"
    using rnd_eval_pos [of 32 "- (5242880000000003 / 2 ^ 20)" "- 5242880000000003"] by simp
  have 2: "rnd (- (1135116817248339 / 2 ^ 17)) = Fin (- (1135116817248339 / 2 ^ 17))"
    using rnd_eval_pos [of 33 "- (1135116817248339 / 2 ^ 17)" "- 4540467268993356"] by simp
  have 3: "rnd (- (2621439999999999 / 2 ^ 19)) = Fin (- (2621439999999999 / 2 ^ 19))"
    using rnd_eval_pos [of 32 "- (2621439999999999 / 2 ^ 19)" "- 5242879999999998"] by simp
  have 4: "rnd (2270233634496679 / 2 ^ 18) = Fin (2270233634496679 / 2 ^ 18)"
    using rnd_eval_pos [of 33 "2270233634496679 / 2 ^ 18" 4540467268993358] by simp
  have z: "c_prod a_b64 (Fin 0, Fin 0) = (Fin 0, Fin 0)"
       "c_prod (c_prod a_b64 a_b64) (Fin 0, Fin 0) = (Fin 0, Fin 0)"
    by (simp_all add: a2_val prod_zero) (simp add: a_b64_def prod_zero)
  show ?thesis
    unfolding sequence_to_phase_def Let_def z
    unfolding a2_val prod_a2_e10 prod_a_e10
    using 1 2 3 4 rnd_e10 by (simp add: c_sum_def fadd_def)
qed

text \<open>
  C7, as stated, fails. With \<open>v_f = 1\<close> and \<open>z1 = z_f = 0\<close> the three-phase model divides
  by \<open>1e-10\<close> and returns \<open>I1 = 10\<^sup>1\<^sup>0\<close>; the phase transform then gives \<open>Ia = 10\<^sup>1\<^sup>0\<close>
  and \<open>Ib = -5000000000.000003 - 8660254037.844383 j\<close>, whose magnitude is below
  \<open>10\<^sup>1\<^sup>0 - 10\<^sup>-\<^sup>6\<close>: the magnitudes of \<open>Ia\<close> and \<open>Ib\<close> differ by more than \<open>10\<^sup>-\<^sup>6\<close>.
\<close>

theorem LLL_balanced_counterexample:
  "ThreePhaseFault_b64 (Fin 1, Fin 0) (Fin 0, Fin 0) (Fin 0, Fin 0) (Fin 0, Fin 0) (Fin 0)
     = Inr ((Fin 0, Fin 0), (Fin (10 ^ 10), Fin 0), (Fin 0, Fin 0))
   \<and> sequence_to_phase (Fin 0, Fin 0) (Fin (10 ^ 10), Fin 0) (Fin 0, Fin 0)
     = ((Fin (10 ^ 10), Fin 0),
        (Fin (- (5242880000000003 / 2 ^ 20)), Fin (- (1135116817248339 / 2 ^ 17))),
        (Fin (- (2621439999999999 / 2 ^ 19)), Fin (2270233634496679 / 2 ^ 18)))
   \<and> c_mod (Fin (10 ^ 10), Fin 0) = 10 ^ 10
   \<and> c_mod (Fin (- (5242880000000003 / 2 ^ 20)), Fin (- (1135116817248339 / 2 ^ 17)))
       < 10 ^ 10 - 1 / 10 ^ 6"
proof -
  have "sqrt ((5242880000000003 / 2 ^ 20) * (5242880000000003 / 2 ^ 20)
            + (1135116817248339 / 2 ^ 17) * (1135116817248339 / 2 ^ 17))
          < 10 ^ 10 - 1 / 10 ^ 6"
    by (rule real_less_lsqrt) (simp_all add: power2_eq_square)
  then show ?thesis
    using LLL_at_zero phases_e10 by simp
qed

lemma u53_facts: "0 < u53" "u53 \<le> 1 / 1000" "128 * u53 = 1 / 2 ^ 46"
  by (simp_all add: u53_def)

lemma tiny_facts: "0 < tiny" "tiny \<le> 1" "16 * tiny = 1 / 2 ^ 1071"
  by (simp_all add: tiny_def)

lemma powr_consts: "2 powr (- 53) = u53" "2 powr (- 1075) = tiny"
  using pw_neg [of 53] pw_neg [of 1075] by (simp_all add: u53_def tiny_def)

lemma powr_half: "2 powr (- 52) = 2 * u53" "2 powr (- 1074) = 2 * tiny"
  using pw_neg [of 52] pw_neg [of 1074] by (simp_all add: u53_def tiny_def)

lemma rnd_unbounded_error:
  "\<bar>of_int (round_even (x / ulp x)) * ulp x - x\<bar> \<le> ulp x / 2"
proof -
  have "of_int (round_even (x / ulp x)) * ulp x - x
          = (of_int (round_even (x / ulp x)) - x / ulp x) * ulp x"
    using ulp_pos [of x] by (simp add: left_diff_distrib)
  then have "\<bar>of_int (round_even (x / ulp x)) * ulp x - x\<bar>
          = \<bar>of_int (round_even (x / ulp x)) - x / ulp x\<bar> * ulp x"
    using ulp_pos [of x] by (simp add: abs_mult)
  also have "\<dots> \<le> 1 / 2 * ulp x"
    using round_even_error [of "x / ulp x"] ulp_pos [of x]
    by (intro mult_right_mono) (simp_all add: less_imp_le)
  finally show ?thesis by simp
qed

lemma rnd_fin:
  assumes "\<bar>x\<bar> \<le> big"
  shows "\<exists>y. rnd x = Fin y \<and> \<bar>y - x\<bar> \<le> u53 * \<bar>x\<bar> + tiny"
proof (cases "x = 0")
  case True
  then show ?thesis using tiny_facts by simp
next
  case False
  define y where "y = of_int (round_even (x / ulp x)) * ulp x"
  have "ulp x / 2 \<le> (2 powr (- 52) * \<bar>x\<bar> + 2 powr (- 1074)) / 2"
    using ulp_le [OF False] by (simp add: divide_right_mono)
  also have "\<dots> = u53 * \<bar>x\<bar> + tiny"
    unfolding powr_half by (simp add: add_divide_distrib)
  finally have e: "\<bar>y - x\<bar> \<le> u53 * \<bar>x\<bar> + tiny"
    using rnd_unbounded_error [of x] unfolding y_def by linarith
  have "u53 * \<bar>x\<bar> \<le> 1 / 1000 * \<bar>x\<bar>"
    using u53_facts by (intro mult_right_mono) simp_all
  with e tiny_facts have "\<bar>y\<bar> \<le> 2 * \<bar>x\<bar> + 1"
    by linarith
  with assms have "\<bar>y\<bar> \<le> 2 * big + 1" by linarith
  also have "\<dots> < 2 ^ 1024" by (simp add: big_def)
  finally have "\<not> 2 ^ 1024 \<le> \<bar>y\<bar>" by simp
  then have "rnd x = Fin y"
    using False unfolding rnd_def y_def Let_def by simp
  with e show ?thesis by blast
qed

lemma rnd_fin_B:
  assumes "\<bar>x\<bar> \<le> c * M" "c * M \<le> big" "UM = u53 * M" "0 \<le> c"
  shows "\<exists>y. rnd x = Fin y \<and> \<bar>y - x\<bar> \<le> c * UM + tiny"
proof -
  from assms have "\<bar>x\<bar> \<le> big" by linarith
  from rnd_fin [OF this] obtain y where y: "rnd x = Fin y" "\<bar>y - x\<bar> \<le> u53 * \<bar>x\<bar> + tiny"
    by blast
  have "u53 * \<bar>x\<bar> \<le> u53 * (c * M)"
    using assms(1) u53_facts by (intro mult_left_mono) simp_all
  also have "\<dots> = c * UM" by (simp add: assms(3))
  finally show ?thesis using y by (intro exI [of _ y]) simp
qed

lemma abs_mult_le1:
  fixes p x :: real
  assumes "\<bar>p\<bar> \<le> 1"
  shows "\<bar>p * x\<bar> \<le> \<bar>x\<bar>"
  using assms by (simp add: abs_mult mult_left_le_one_le)

lemma sub_err:
  assumes p: "\<bar>p\<bar> \<le> 1" and q: "\<bar>q\<bar> \<le> 1"
    and M: "\<bar>x\<bar> + \<bar>y\<bar> + tiny \<le> M" and big: "7 * M \<le> big" and UM: "UM = u53 * M"
  shows "\<exists>r. fsub (fmul (Fin p) (Fin x)) (fmul (Fin q) (Fin y)) = Fin r
             \<and> \<bar>r - (p * x - q * y)\<bar> \<le> 8 * UM + 3 * tiny"
proof -
  have M0: "0 \<le> M" "tiny \<le> M" using M tiny_facts by linarith+
  have um: "0 \<le> UM" "UM \<le> M / 1000"
    using u53_facts M0 unfolding UM
    by (simp_all add: mult_right_mono [of u53 "1 / 1000" M, simplified])
  have px: "\<bar>p * x\<bar> \<le> 1 * M" using abs_mult_le1 [OF p, of x] M tiny_facts by linarith
  have qy: "\<bar>q * y\<bar> \<le> 1 * M" using abs_mult_le1 [OF q, of y] M tiny_facts by linarith
  have b1: "1 * M \<le> big" using big M0 by linarith
  from rnd_fin_B [OF px b1 UM] obtain t1 where
    t1: "rnd (p * x) = Fin t1" "\<bar>t1 - p * x\<bar> \<le> 1 * UM + tiny" by auto
  from rnd_fin_B [OF qy b1 UM] obtain t2 where
    t2: "rnd (q * y) = Fin t2" "\<bar>t2 - q * y\<bar> \<le> 1 * UM + tiny" by auto
  have d: "\<bar>t1 - t2\<bar> \<le> 6 * M"
    using t1(2) t2(2) px qy um M0 by linarith
  have b6: "6 * M \<le> big" using big M0 by linarith
  from rnd_fin_B [OF d b6 UM] obtain r where
    r: "rnd (t1 - t2) = Fin r" "\<bar>r - (t1 - t2)\<bar> \<le> 6 * UM + tiny" by auto
  have "fsub (fmul (Fin p) (Fin x)) (fmul (Fin q) (Fin y)) = Fin r"
    by (simp add: fsub_def fmul_def fadd_def t1 t2 r)
  moreover have "\<bar>r - (p * x - q * y)\<bar> \<le> 8 * UM + 3 * tiny"
    using r(2) t1(2) t2(2) by linarith
  ultimately show ?thesis by blast
qed

lemma add_err:
  assumes p: "\<bar>p\<bar> \<le> 1" and q: "\<bar>q\<bar> \<le> 1"
    and M: "\<bar>x\<bar> + \<bar>y\<bar> + tiny \<le> M" and big: "7 * M \<le> big" and UM: "UM = u53 * M"
  shows "\<exists>r. fadd (fmul (Fin p) (Fin x)) (fmul (Fin q) (Fin y)) = Fin r
             \<and> \<bar>r - (p * x + q * y)\<bar> \<le> 8 * UM + 3 * tiny"
proof -
  have M0: "0 \<le> M" "tiny \<le> M" using M tiny_facts by linarith+
  have um: "0 \<le> UM" "UM \<le> M / 1000"
    using u53_facts M0 unfolding UM
    by (simp_all add: mult_right_mono [of u53 "1 / 1000" M, simplified])
  have px: "\<bar>p * x\<bar> \<le> 1 * M" using abs_mult_le1 [OF p, of x] M tiny_facts by linarith
  have qy: "\<bar>q * y\<bar> \<le> 1 * M" using abs_mult_le1 [OF q, of y] M tiny_facts by linarith
  have b1: "1 * M \<le> big" using big M0 by linarith
  from rnd_fin_B [OF px b1 UM] obtain t1 where
    t1: "rnd (p * x) = Fin t1" "\<bar>t1 - p * x\<bar> \<le> 1 * UM + tiny" by auto
  from rnd_fin_B [OF qy b1 UM] obtain t2 where
    t2: "rnd (q * y) = Fin t2" "\<bar>t2 - q * y\<bar> \<le> 1 * UM + tiny" by auto
  have d: "\<bar>t1 + t2\<bar> \<le> 6 * M"
    using t1(2) t2(2) px qy um M0 by linarith
  have b6: "6 * M \<le> big" using big M0 by linarith
  from rnd_fin_B [OF d b6 UM] obtain r where
    r: "rnd (t1 + t2) = Fin r" "\<bar>r - (t1 + t2)\<bar> \<le> 6 * UM + tiny" by auto
  have "fadd (fmul (Fin p) (Fin x)) (fmul (Fin q) (Fin y)) = Fin r"
    by (simp add: fmul_def fadd_def t1 t2 r)
  moreover have "\<bar>r - (p * x + q * y)\<bar> \<le> 8 * UM + 3 * tiny"
    using r(2) t1(2) t2(2) by linarith
  ultimately show ?thesis by blast
qed

lemma prod_err:
  assumes p: "\<bar>p\<bar> \<le> 1" and q: "\<bar>q\<bar> \<le> 1"
    and M: "\<bar>x\<bar> + \<bar>y\<bar> + tiny \<le> M" and big: "7 * M \<le> big" and UM: "UM = u53 * M"
  shows "\<exists>r s. c_prod (Fin p, Fin q) (Fin x, Fin y) = (Fin r, Fin s)
             \<and> \<bar>r - (p * x - q * y)\<bar> \<le> 8 * UM + 3 * tiny
             \<and> \<bar>s - (p * y + q * x)\<bar> \<le> 8 * UM + 3 * tiny"
proof -
  have M': "\<bar>y\<bar> + \<bar>x\<bar> + tiny \<le> M" using M by simp
  from sub_err [OF p q M big UM] obtain r where
    r: "fsub (fmul (Fin p) (Fin x)) (fmul (Fin q) (Fin y)) = Fin r"
       "\<bar>r - (p * x - q * y)\<bar> \<le> 8 * UM + 3 * tiny" by blast
  from add_err [OF p q M' big UM] obtain s where
    s: "fadd (fmul (Fin p) (Fin y)) (fmul (Fin q) (Fin x)) = Fin s"
       "\<bar>s - (p * y + q * x)\<bar> \<le> 8 * UM + 3 * tiny" by blast
  show ?thesis
    using r s by (simp add: c_prod_def)
qed

lemma zero_sum_err:
  assumes r: "\<bar>r\<bar> \<le> 5 * M" and M: "tiny \<le> M" and big: "7 * M \<le> big"
    and UM: "UM = u53 * M"
  shows "\<exists>r2. fadd (fadd (Fin 0) (Fin r)) (Fin 0) = Fin r2
             \<and> \<bar>r2 - r\<bar> \<le> 12 * UM + 2 * tiny"
proof -
  have M0: "0 \<le> M" using M tiny_facts by linarith
  have um: "0 \<le> UM" "UM \<le> M / 1000"
    using u53_facts M0 unfolding UM
    by (simp_all add: mult_right_mono [of u53 "1 / 1000" M, simplified])
  have b5: "5 * M \<le> big" using big M0 by linarith
  from rnd_fin_B [OF r b5 UM] obtain r1 where
    r1: "rnd r = Fin r1" "\<bar>r1 - r\<bar> \<le> 5 * UM + tiny" by auto
  have d: "\<bar>r1\<bar> \<le> 7 * M"
    using r1(2) r um M by linarith
  from rnd_fin_B [OF d big UM] obtain r2 where
    r2: "rnd r1 = Fin r2" "\<bar>r2 - r1\<bar> \<le> 7 * UM + tiny" by auto
  have "fadd (fadd (Fin 0) (Fin r)) (Fin 0) = Fin r2"
    by (simp add: fadd_def r1 r2)
  moreover have "\<bar>r2 - r\<bar> \<le> 12 * UM + 2 * tiny"
    using r1(2) r2(2) by linarith
  ultimately show ?thesis by blast
qed

lemma zero_sum_pair_err:
  assumes r: "\<bar>r\<bar> \<le> 5 * M" and s: "\<bar>s\<bar> \<le> 5 * M" and M: "tiny \<le> M"
    and big: "7 * M \<le> big" and UM: "UM = u53 * M"
  shows "\<exists>r2 s2. c_sum (c_sum (Fin 0, Fin 0) (Fin r, Fin s)) (Fin 0, Fin 0) = (Fin r2, Fin s2)
             \<and> \<bar>r2 - r\<bar> \<le> 12 * UM + 2 * tiny \<and> \<bar>s2 - s\<bar> \<le> 12 * UM + 2 * tiny"
proof -
  from zero_sum_err [OF r M big UM] obtain r2 where
    r2: "fadd (fadd (Fin 0) (Fin r)) (Fin 0) = Fin r2" "\<bar>r2 - r\<bar> \<le> 12 * UM + 2 * tiny"
    by blast
  from zero_sum_err [OF s M big UM] obtain s2 where
    s2: "fadd (fadd (Fin 0) (Fin s)) (Fin 0) = Fin s2" "\<bar>s2 - s\<bar> \<le> 12 * UM + 2 * tiny"
    by blast
  show ?thesis using r2 s2 by (simp add: c_sum_def)
qed

text \<open>One phase current \<open>0 + w i1 + w' 0\<close> for a constant \<open>w = (p, q)\<close>.\<close>

lemma phase_err:
  assumes p: "\<bar>p\<bar> \<le> 1" and q: "\<bar>q\<bar> \<le> 1"
    and M: "\<bar>x\<bar> + \<bar>y\<bar> + tiny \<le> M" and big: "7 * M \<le> big" and UM: "UM = u53 * M"
  shows "\<exists>r s. c_sum (c_sum (Fin 0, Fin 0) (c_prod (Fin p, Fin q) (Fin x, Fin y)))
                    (c_prod (Fin p', Fin q') (Fin 0, Fin 0)) = (Fin r, Fin s)
             \<and> \<bar>r - (p * x - q * y)\<bar> \<le> 20 * UM + 5 * tiny
             \<and> \<bar>s - (p * y + q * x)\<bar> \<le> 20 * UM + 5 * tiny"
proof -
  have M0: "0 \<le> M" "tiny \<le> M" using M tiny_facts by linarith+
  have um: "0 \<le> UM" "UM \<le> M / 1000"
    using u53_facts M0 unfolding UM
    by (simp_all add: mult_right_mono [of u53 "1 / 1000" M, simplified])
  from prod_err [OF p q M big UM] obtain r0 s0 where
    0: "c_prod (Fin p, Fin q) (Fin x, Fin y) = (Fin r0, Fin s0)"
       "\<bar>r0 - (p * x - q * y)\<bar> \<le> 8 * UM + 3 * tiny"
       "\<bar>s0 - (p * y + q * x)\<bar> \<le> 8 * UM + 3 * tiny" by blast
  have px: "\<bar>p * x\<bar> \<le> \<bar>x\<bar>" "\<bar>p * y\<bar> \<le> \<bar>y\<bar>" using abs_mult_le1 [OF p] by simp_all
  have qy: "\<bar>q * y\<bar> \<le> \<bar>y\<bar>" "\<bar>q * x\<bar> \<le> \<bar>x\<bar>" using abs_mult_le1 [OF q] by simp_all
  have r0: "\<bar>r0\<bar> \<le> 5 * M" using 0(2) px qy M um M0 tiny_facts by linarith
  have s0: "\<bar>s0\<bar> \<le> 5 * M" using 0(3) px qy M um M0 tiny_facts by linarith
  from zero_sum_pair_err [OF r0 s0 M0(2) big UM] obtain r s where
    1: "c_sum (c_sum (Fin 0, Fin 0) (Fin r0, Fin s0)) (Fin 0, Fin 0) = (Fin r, Fin s)"
       "\<bar>r - r0\<bar> \<le> 12 * UM + 2 * tiny" "\<bar>s - s0\<bar> \<le> 12 * UM + 2 * tiny" by blast
  have "c_sum (c_sum (Fin 0, Fin 0) (c_prod (Fin p, Fin q) (Fin x, Fin y)))
                    (c_prod (Fin p', Fin q') (Fin 0, Fin 0)) = (Fin r, Fin s)"
    by (simp add: 0(1) prod_zero 1(1))
  moreover have "\<bar>r - (p * x - q * y)\<bar> \<le> 20 * UM + 5 * tiny"
    using 0(2) 1(2) by linarith
  moreover have "\<bar>s - (p * y + q * x)\<bar> \<le> 20 * UM + 5 * tiny"
    using 0(3) 1(3) by linarith
  ultimately show ?thesis by blast
qed

lemma c_mod_cmod: "c_mod (Fin x, Fin y) = cmod (Complex x y)"
  by (simp add: cmod_def power2_eq_square)

lemma mod_err:
  assumes r: "\<bar>r - (p * x - q * y)\<bar> \<le> E" and s: "\<bar>s - (p * y + q * x)\<bar> \<le> E"
    and a: "\<bar>cmod (Complex p q) - 1\<bar> \<le> 4 * u53"
  shows "\<bar>cmod (Complex r s) - cmod (Complex x y)\<bar> \<le> 2 * E + 4 * u53 * cmod (Complex x y)"
proof -
  define T where "T = Complex p q * Complex x y"
  have T: "T = Complex (p * x - q * y) (p * y + q * x)"
    by (simp add: T_def complex_eq_iff)
  have "cmod (Complex r s - T) \<le> \<bar>Re (Complex r s - T)\<bar> + \<bar>Im (Complex r s - T)\<bar>"
    by (rule cmod_le)
  also have "\<dots> \<le> 2 * E"
    using r s by (simp add: T)
  finally have 1: "\<bar>cmod (Complex r s) - cmod T\<bar> \<le> 2 * E"
    using norm_triangle_ineq3 [of "Complex r s" T] by linarith
  have "cmod T - cmod (Complex x y) = (cmod (Complex p q) - 1) * cmod (Complex x y)"
    by (simp add: T_def norm_mult left_diff_distrib)
  then have "\<bar>cmod T - cmod (Complex x y)\<bar> = \<bar>cmod (Complex p q) - 1\<bar> * cmod (Complex x y)"
    by (simp add: abs_mult)
  also have "\<dots> \<le> 4 * u53 * cmod (Complex x y)"
    using a by (intro mult_right_mono) simp_all
  finally show ?thesis using 1 by linarith
qed

lemma near_one:
  fixes n :: real
  assumes "(1 - 4 * u53) * (1 - 4 * u53) \<le> n" "n \<le> (1 + 4 * u53) * (1 + 4 * u53)"
  shows "\<bar>sqrt n - 1\<bar> \<le> 4 * u53"
proof -
  have u: "0 \<le> 1 - 4 * u53" "0 \<le> 1 + 4 * u53" using u53_facts by linarith+
  have "sqrt ((1 - 4 * u53) * (1 - 4 * u53)) \<le> sqrt n"
    using assms(1) by (simp only: real_sqrt_le_iff)
  then have 1: "1 - 4 * u53 \<le> sqrt n" using u by simp
  have "sqrt n \<le> sqrt ((1 + 4 * u53) * (1 + 4 * u53))"
    using assms(2) by (simp only: real_sqrt_le_iff)
  then have 2: "sqrt n \<le> 1 + 4 * u53" using u by simp
  from 1 2 show ?thesis by linarith
qed

lemma cmod_a2_b64: "\<bar>cmod (Complex (- (4503599627370499 / 2 ^ 53)) (- (975057921444245 / 2 ^ 50))) - 1\<bar>
                  \<le> 4 * u53"
  unfolding cmod_def by (rule near_one) (simp_all add: u53_def power2_eq_square)

lemma cmod_a_b64: "\<bar>cmod (Complex (- (2251799813685247 / 2 ^ 52)) (7800463371553963 / 2 ^ 53)) - 1\<bar>
                  \<le> 4 * u53"
  unfolding cmod_def by (rule near_one) (simp_all add: u53_def power2_eq_square)

lemma cmod_one: "\<bar>cmod (Complex 1 0) - 1\<bar> \<le> 4 * u53"
proof -
  have "cmod (Complex 1 0) = 1" by (simp add: cmod_def)
  then show ?thesis using u53_facts(1) by simp
qed

lemma phases_err:
  assumes x: "\<bar>x\<bar> \<le> 2 ^ 1000" and y: "\<bar>y\<bar> \<le> 2 ^ 1000"
  shows "\<exists>ar ai br bi cr ci.
           sequence_to_phase (Fin 0, Fin 0) (Fin x, Fin y) (Fin 0, Fin 0)
             = ((Fin ar, Fin ai), (Fin br, Fin bi), (Fin cr, Fin ci))
           \<and> \<bar>c_mod (Fin ar, Fin ai) - c_mod (Fin x, Fin y)\<bar>
                 \<le> c_mod (Fin x, Fin y) / 2 ^ 46 + 1 / 2 ^ 1071
           \<and> \<bar>c_mod (Fin br, Fin bi) - c_mod (Fin x, Fin y)\<bar>
                 \<le> c_mod (Fin x, Fin y) / 2 ^ 46 + 1 / 2 ^ 1071
           \<and> \<bar>c_mod (Fin cr, Fin ci) - c_mod (Fin x, Fin y)\<bar>
                 \<le> c_mod (Fin x, Fin y) / 2 ^ 46 + 1 / 2 ^ 1071"
proof -
  define M where "M = \<bar>x\<bar> + \<bar>y\<bar> + tiny"
  define UM where "UM = u53 * M"
  define m where "m = cmod (Complex x y)"
  have M: "\<bar>x\<bar> + \<bar>y\<bar> + tiny \<le> M" by (simp add: M_def)
  have UM: "UM = u53 * M" by (simp add: UM_def)
  define K where "K = (2::real) ^ 1000"
  have "\<bar>x\<bar> \<le> K" "\<bar>y\<bar> \<le> K" using x y by (simp_all add: K_def)
  then have "\<bar>x\<bar> + \<bar>y\<bar> + tiny \<le> K + K + 1"
    using tiny_facts(2) by (intro add_mono)
  then have "7 * M \<le> 7 * (K + K + 1)"
    unfolding M_def by simp
  also have "\<dots> \<le> big" by (simp add: big_def K_def)
  finally have big: "7 * M \<le> big" .
  have M0: "0 \<le> M" "tiny \<le> M" using M tiny_facts by linarith+
  have m0: "0 \<le> m" by (simp add: m_def)
  have "\<bar>x\<bar> \<le> m" "\<bar>y\<bar> \<le> m"
    using abs_Re_le_cmod [of "Complex x y"] abs_Im_le_cmod [of "Complex x y"]
    by (simp_all add: m_def)
  then have "M \<le> 2 * m + tiny" by (simp add: M_def)
  then have "u53 * M \<le> u53 * (2 * m + tiny)"
    using u53_facts by (intro mult_left_mono) simp_all
  moreover have "u53 * tiny \<le> 1 / 1000 * tiny"
    using u53_facts tiny_facts by (intro mult_right_mono) simp_all
  ultimately have um: "UM \<le> 2 * (u53 * m) + tiny / 1000"
    by (simp add: UM_def distrib_left)
  have um0: "0 \<le> u53 * m" using u53_facts m0 by simp
  define tolv where "tolv = m / 2 ^ 46 + 1 / 2 ^ 1071"
  have "40 * UM + 10 * tiny + 4 * u53 * m \<le> 128 * u53 * m + 16 * tiny"
    using um um0 tiny_facts by linarith
  also have "\<dots> = tolv"
    by (simp add: u53_def tiny_def tolv_def)
  finally have tol: "40 * UM + 10 * tiny + 4 * u53 * m \<le> tolv" .
  have one: "\<bar>1::real\<bar> \<le> 1" "\<bar>0::real\<bar> \<le> 1" by simp_all
  have pa2: "\<bar>- (4503599627370499 / 2 ^ 53) :: real\<bar> \<le> 1"
            "\<bar>- (975057921444245 / 2 ^ 50) :: real\<bar> \<le> 1" by simp_all
  have pa: "\<bar>- (2251799813685247 / 2 ^ 52) :: real\<bar> \<le> 1"
           "\<bar>7800463371553963 / 2 ^ 53 :: real\<bar> \<le> 1" by simp_all
  have xr: "\<bar>x\<bar> \<le> 5 * M" "\<bar>y\<bar> \<le> 5 * M" using M M0 tiny_facts by linarith+
  from zero_sum_pair_err [OF xr M0(2) big UM] obtain ar ai where
    a: "c_sum (c_sum (Fin 0, Fin 0) (Fin x, Fin y)) (Fin 0, Fin 0) = (Fin ar, Fin ai)"
       "\<bar>ar - x\<bar> \<le> 12 * UM + 2 * tiny" "\<bar>ai - y\<bar> \<le> 12 * UM + 2 * tiny" by blast
  from phase_err [OF pa2 M big UM] obtain br bi where
    b: "c_sum (c_sum (Fin 0, Fin 0)
          (c_prod (Fin (- (4503599627370499 / 2 ^ 53)), Fin (- (975057921444245 / 2 ^ 50)))
             (Fin x, Fin y)))
          (c_prod (Fin (- (2251799813685247 / 2 ^ 52)), Fin (7800463371553963 / 2 ^ 53))
             (Fin 0, Fin 0)) = (Fin br, Fin bi)"
       "\<bar>br - (- (4503599627370499 / 2 ^ 53) * x - - (975057921444245 / 2 ^ 50) * y)\<bar>
          \<le> 20 * UM + 5 * tiny"
       "\<bar>bi - (- (4503599627370499 / 2 ^ 53) * y + - (975057921444245 / 2 ^ 50) * x)\<bar>
          \<le> 20 * UM + 5 * tiny" by blast
  from phase_err [OF pa M big UM] obtain cr ci where
    c: "c_sum (c_sum (Fin 0, Fin 0)
          (c_prod (Fin (- (2251799813685247 / 2 ^ 52)), Fin (7800463371553963 / 2 ^ 53))
             (Fin x, Fin y)))
          (c_prod (Fin (- (4503599627370499 / 2 ^ 53)), Fin (- (975057921444245 / 2 ^ 50)))
             (Fin 0, Fin 0)) = (Fin cr, Fin ci)"
       "\<bar>cr - (- (2251799813685247 / 2 ^ 52) * x - 7800463371553963 / 2 ^ 53 * y)\<bar>
          \<le> 20 * UM + 5 * tiny"
       "\<bar>ci - (- (2251799813685247 / 2 ^ 52) * y + 7800463371553963 / 2 ^ 53 * x)\<bar>
          \<le> 20 * UM + 5 * tiny" by blast
  have seq: "sequence_to_phase (Fin 0, Fin 0) (Fin x, Fin y) (Fin 0, Fin 0)
             = ((Fin ar, Fin ai), (Fin br, Fin bi), (Fin cr, Fin ci))"
    unfolding sequence_to_phase_def Let_def a2_val
    unfolding a_b64_def a(1) b(1) c(1) ..
  have a': "\<bar>ar - (1 * x - 0 * y)\<bar> \<le> 20 * UM + 5 * tiny"
           "\<bar>ai - (1 * y + 0 * x)\<bar> \<le> 20 * UM + 5 * tiny"
    using a(2,3) M0 u53_facts tiny_facts UM
    by (simp_all add: order_trans [OF _ add_mono [of "12 * UM" "20 * UM" "2 * tiny" "5 * tiny"]])
  from mod_err [OF a' cmod_one, folded m_def]
  have "\<bar>cmod (Complex ar ai) - m\<bar> \<le> 40 * UM + 10 * tiny + 4 * u53 * m"
    by simp
  then have 1: "\<bar>cmod (Complex ar ai) - m\<bar> \<le> tolv"
    using tol by (rule order_trans)
  from mod_err [OF b(2,3) cmod_a2_b64, folded m_def]
  have "\<bar>cmod (Complex br bi) - m\<bar> \<le> 40 * UM + 10 * tiny + 4 * u53 * m"
    by simp
  then have 2: "\<bar>cmod (Complex br bi) - m\<bar> \<le> tolv"
    using tol by (rule order_trans)
  from mod_err [OF c(2,3) cmod_a_b64, folded m_def]
  have "\<bar>cmod (Complex cr ci) - m\<bar> \<le> 40 * UM + 10 * tiny + 4 * u53 * m"
    by simp
  then have 3: "\<bar>cmod (Complex cr ci) - m\<bar> \<le> tolv"
    using tol by (rule order_trans)
  show ?thesis
    using seq 1 2 3 unfolding c_mod_cmod m_def tolv_def by blast
qed

lemma ThreePhaseFault_b64_zero_seq:
  assumes "ThreePhaseFault_b64 v_f z0 z1 z2 z_f = Inr (i0, i1, i2)"
  shows "i0 = (Fin 0, Fin 0) \<and> i2 = (Fin 0, Fin 0)"
  using assms unfolding ThreePhaseFault_b64_def Let_def
  by (auto split: sum.splits)

text \<open>
  C7, amended. When the three-phase model returns a positive-sequence current \<open>I1\<close>
  with finite parts of magnitude at most \<open>2\<^sup>1\<^sup>0\<^sup>0\<^sup>0\<close>, its zero- and negative-sequence
  currents are exactly zero (so \<open>|I0| = 0\<close>), the three phase currents are finite, and
  each of \<open>|Ia|\<close>, \<open>|Ib|\<close>, \<open>|Ic|\<close> is within \<open>|I1| / 2\<^sup>4\<^sup>6 + 2\<^sup>-\<^sup>1\<^sup>0\<^sup>7\<^sup>1\<close> of \<open>|I1|\<close>: the balance
  holds up to a relative rounding error, not up to \<open>10\<^sup>-\<^sup>6\<close>.
\<close>

theorem LLL_phase_magnitudes:
  assumes "ThreePhaseFault_b64 v_f z0 z1 z2 z_f = Inr (i0, (Fin x, Fin y), i2)"
    and "\<bar>x\<bar> \<le> 2 ^ 1000" and "\<bar>y\<bar> \<le> 2 ^ 1000"
  shows "i0 = (Fin 0, Fin 0) \<and> i2 = (Fin 0, Fin 0) \<and> c_mod i0 = 0
     \<and> (\<exists>ar ai br bi cr ci.
           sequence_to_phase i0 (Fin x, Fin y) i2
             = ((Fin ar, Fin ai), (Fin br, Fin bi), (Fin cr, Fin ci))
           \<and> \<bar>c_mod (Fin ar, Fin ai) - c_mod (Fin x, Fin y)\<bar>
                 \<le> c_mod (Fin x, Fin y) / 2 ^ 46 + 1 / 2 ^ 1071
           \<and> \<bar>c_mod (Fin br, Fin bi) - c_mod (Fin x, Fin y)\<bar>
                 \<le> c_mod (Fin x, Fin y) / 2 ^ 46 + 1 / 2 ^ 1071
           \<and> \<bar>c_mod (Fin cr, Fin ci) - c_mod (Fin x, Fin y)\<bar>
                 \<le> c_mod (Fin x, Fin y) / 2 ^ 46 + 1 / 2 ^ 1071)"
proof -
  from ThreePhaseFault_b64_zero_seq [OF assms(1)]
  have z: "i0 = (Fin 0, Fin 0)" "i2 = (Fin 0, Fin 0)" by simp_all
  show ?thesis
    unfolding z using phases_err [OF assms(2,3)] by simp
qed

theorem LLL_phase_magnitudes_witness:
  "ThreePhaseFault_b64 (Fin 1, Fin 0) (Fin 0, Fin 0) (Fin 0, Fin 0) (Fin 0, Fin 0) (Fin 0)
     = Inr ((Fin 0, Fin 0), (Fin (10 ^ 10), Fin 0), (Fin 0, Fin 0))
   \<and> \<bar>10 ^ 10 :: real\<bar> \<le> 2 ^ 1000 \<and> \<bar>0 :: real\<bar> \<le> 2 ^ 1000
   \<and> (\<exists>ar ai br bi cr ci.
           sequence_to_phase (Fin 0, Fin 0) (Fin (10 ^ 10), Fin 0) (Fin 0, Fin 0)
             = ((Fin ar, Fin ai), (Fin br, Fin bi), (Fin cr, Fin ci))
           \<and> \<bar>c_mod (Fin ar, Fin ai) - 10 ^ 10\<bar> \<le> 10 ^ 10 / 2 ^ 46 + 1 / 2 ^ 1071
           \<and> \<bar>c_mod (Fin br, Fin bi) - 10 ^ 10\<bar> \<le> 10 ^ 10 / 2 ^ 46 + 1 / 2 ^ 1071
           \<and> \<bar>c_mod (Fin cr, Fin ci) - 10 ^ 10\<bar> \<le> 10 ^ 10 / 2 ^ 46 + 1 / 2 ^ 1071)"
proof -
  have h1: "ThreePhaseFault_b64 (Fin 1, Fin 0) (Fin 0, Fin 0) (Fin 0, Fin 0) (Fin 0, Fin 0) (Fin 0)
     = Inr ((Fin 0, Fin 0), (Fin (10 ^ 10), Fin 0), (Fin 0, Fin 0))"
    by (rule LLL_at_zero)
  have h2: "\<bar>10 ^ 10 :: real\<bar> \<le> 2 ^ 1000" by simp
  have h3: "\<bar>0 :: real\<bar> \<le> 2 ^ 1000" by simp
  have m: "c_mod (Fin (10 ^ 10), Fin 0) = 10 ^ 10" by simp
  from LLL_phase_magnitudes [OF h1 h2 h3] h1 h2 h3 show ?thesis
    unfolding m by blast
qed








end
